theory Spec2Isabelle
  imports Main "HOL-Library.AList"
begin

section \<open>JavaScript values and the coercions the servers rely on\<close>

text \<open>
  Both servers receive their arguments as parsed JSON and coerce them with
  \<^verbatim>\<open>x || default\<close>, \<^verbatim>\<open>String(x)\<close> and \<^verbatim>\<open>Number(x)\<close>. A JSON value is modelled with integer
  numbers only (of magnitude below \<open>2^53\<close>, where JavaScript prints them in plain decimal);
  numbers with a fractional part are outside the model. A string is a list of 8-bit
  characters read as the code points U+0000 to U+00FF.
\<close>

datatype json =
    JNull
  | JBool bool
  | JNum int
  | JStr string
  | JArr "json list"
  | JObj "(string \<times> json) list"

text \<open>Reading a property: \<open>None\<close> is \<^verbatim>\<open>undefined\<close>. Of a repeated key the last one is kept,
  as \<^verbatim>\<open>JSON.parse\<close> does. None of the property names the servers read exists on an array, a
  string, a number or a boolean.\<close>

fun get :: "json \<Rightarrow> string \<Rightarrow> json option" where
  "get (JObj kvs) k = map_of (rev kvs) k"
| "get _ k = None"

fun truthy :: "json \<Rightarrow> bool" where
  "truthy JNull = False"
| "truthy (JBool b) = b"
| "truthy (JNum n) = (n \<noteq> 0)"
| "truthy (JStr s) = (s \<noteq> [])"
| "truthy (JArr xs) = True"
| "truthy (JObj kvs) = True"

text \<open>\<^verbatim>\<open>x || d\<close> for a property \<open>x\<close> that may be undefined.\<close>

fun js_or :: "json option \<Rightarrow> json \<Rightarrow> json" where
  "js_or None d = d"
| "js_or (Some v) d = (if truthy v then v else d)"

definition digit_char :: "nat \<Rightarrow> char" where
  "digit_char d = ''0123456789'' ! d"

function dec :: "nat \<Rightarrow> string" where
  "dec n = (if n < 10 then [digit_char n] else dec (n div 10) @ [digit_char (n mod 10)])"
  by pat_completeness auto
termination
  by (relation "measure (\<lambda>n. n)") auto

declare dec.simps [simp del]

definition dec_int :: "int \<Rightarrow> string" where
  "dec_int i = (if i < 0 then CHR ''-'' # dec (nat (- i)) else dec (nat i))"

fun join :: "string \<Rightarrow> string list \<Rightarrow> string" where
  "join sep [] = []"
| "join sep [x] = x"
| "join sep (x # y # ys) = x @ sep @ join sep (y # ys)"

text \<open>The exceptions of the model-router server: the HTTP layer raises before a request is
  sent, or a conversion raises a TypeError.\<close>

datatype exn = RequestRaised | TypeError

text \<open>The first exception of a list of results, or all their values.\<close>

fun collect :: "('e + 'a) list \<Rightarrow> 'e + 'a list" where
  "collect [] = Inr []"
| "collect (r # rs) =
     (case r of
        Inl x \<Rightarrow> Inl x
      | Inr v \<Rightarrow> (case collect rs of Inl x \<Rightarrow> Inl x | Inr vs \<Rightarrow> Inr (v # vs)))"

text \<open>\<^verbatim>\<open>String(v)\<close>. An array prints its elements separated by commas, with \<^verbatim>\<open>null\<close> elements
  printed as the empty string. An object prints as \<^verbatim>\<open>[object Object]\<close> through the \<^verbatim>\<open>toString\<close>
  it inherits. When the object has a property \<^verbatim>\<open>toString\<close> of its own, that property is no
  function (no JSON value is one), the inherited \<^verbatim>\<open>valueOf\<close> returns the object itself, and the
  conversion raises a TypeError; so does the conversion of an array that holds such an
  object.\<close>

fun js_String :: "json \<Rightarrow> exn + string" where
  "js_String JNull = Inr ''null''"
| "js_String (JBool b) = Inr (if b then ''true'' else ''false'')"
| "js_String (JNum n) = Inr (dec_int n)"
| "js_String (JStr s) = Inr s"
| "js_String (JArr xs) =
     (case collect (map (\<lambda>x. if x = JNull then Inr [] else js_String x) xs) of
        Inl x \<Rightarrow> Inl x
      | Inr ss \<Rightarrow> Inr (join '','' ss))"
| "js_String (JObj kvs) =
     (case get (JObj kvs) ''toString'' of
        None \<Rightarrow> Inr ''[object Object]''
      | Some f \<Rightarrow> Inl TypeError)"

text \<open>White space removed by \<^verbatim>\<open>trim\<close> among the code points below 256: tab, line feed,
  vertical tab, form feed, carriage return, space and the no-break space.\<close>

definition is_space :: "char \<Rightarrow> bool" where
  "is_space c = ((of_char c :: nat) \<in> {9, 10, 11, 12, 13, 32, 160})"

definition trim :: "string \<Rightarrow> string" where
  "trim s = rev (dropWhile is_space (rev (dropWhile is_space s)))"

definition lower_char :: "char \<Rightarrow> char" where
  "lower_char c =
     (let n = (of_char c :: nat)
      in if (65 \<le> n \<and> n \<le> 90) \<or> (192 \<le> n \<and> n \<le> 222 \<and> n \<noteq> 215) then char_of (n + 32) else c)"

definition toLowerCase :: "string \<Rightarrow> string" where
  "toLowerCase s = map lower_char s"

text \<open>Decimal digits and the value of a string of digits.\<close>

definition is_digit :: "char \<Rightarrow> bool" where
  "is_digit c = (c \<in> set ''0123456789'')"

definition digit_val :: "char \<Rightarrow> int" where
  "digit_val c = (of_char c :: int) - 48"

definition digits_val :: "string \<Rightarrow> int" where
  "digits_val s = foldl (\<lambda>a c. 10 * a + digit_val c) 0 s"

text \<open>A plain object used as a dictionary, listed in the order in which JavaScript enumerates
  its own properties (the order of \<^verbatim>\<open>Object.entries\<close>, \<^verbatim>\<open>Object.values\<close> and \<^verbatim>\<open>JSON.stringify\<close>):
  the properties named by an array index first, in ascending numeric order, then the others
  in the order of their creation. An array index is the decimal text, without a leading
  zero, of an integer from 0 to \<open>2^32 - 2\<close>.\<close>

type_synonym dict = "(string \<times> string) list"

definition array_index :: "string \<Rightarrow> bool" where
  "array_index k =
     (k \<noteq> [] \<and> list_all is_digit k \<and> (hd k \<noteq> CHR ''0'' \<or> k = ''0'') \<and> digits_val k < 2 ^ 32 - 1)"

text \<open>Whether a new property named \<open>k\<close> is enumerated before an existing one named \<open>k'\<close>.\<close>

definition goes_before :: "string \<Rightarrow> string \<Rightarrow> bool" where
  "goes_before k k' =
     (if array_index k' then array_index k \<and> digits_val k < digits_val k' else array_index k)"

fun insert_key :: "string \<Rightarrow> string \<Rightarrow> dict \<Rightarrow> dict" where
  "insert_key k v [] = [(k, v)]"
| "insert_key k v (kv # d) =
     (if goes_before k (fst kv) then (k, v) # kv # d else kv # insert_key k v d)"

text \<open>The assignment \<^verbatim>\<open>d[k] = v\<close> of a string. Assigning to the key \<^verbatim>\<open>__proto__\<close> goes to the
  setter inherited from \<^verbatim>\<open>Object.prototype\<close>, which ignores a value that is neither an
  object nor null: no own property is created. An existing property keeps its place and
  takes the new value; a new one is created.\<close>

definition js_set :: "dict \<Rightarrow> string \<Rightarrow> string \<Rightarrow> dict" where
  "js_set d k v =
     (if k = ''__proto__'' then d
      else case map_of d k of
             None \<Rightarrow> insert_key k v d
           | Some old \<Rightarrow> AList.update k v d)"



text \<open>Numbers as \<^verbatim>\<open>Number(x)\<close>, \<^verbatim>\<open>Math.min\<close> and \<^verbatim>\<open>Math.max\<close> see them: an integer or NaN.\<close>

datatype jsnum = NaN | Num int

fun js_min :: "jsnum \<Rightarrow> jsnum \<Rightarrow> jsnum" where
  "js_min (Num a) (Num b) = Num (min a b)"
| "js_min _ _ = NaN"

fun js_max :: "jsnum \<Rightarrow> jsnum \<Rightarrow> jsnum" where
  "js_max (Num a) (Num b) = Num (max a b)"
| "js_max _ _ = NaN"

text \<open>\<^verbatim>\<open>i <= r\<close> for an integer counter \<open>i\<close>: false when \<open>r\<close> is NaN.\<close>

fun js_le :: "int \<Rightarrow> jsnum \<Rightarrow> bool" where
  "js_le i (Num r) = (i \<le> r)"
| "js_le i NaN = False"

text \<open>\<^verbatim>\<open>Number(s)\<close> of a string. The empty string (after trimming) is 0 and a string of decimal
  digits whose value is below \<open>2^53\<close> is that value. Every other string (a sign, a fraction,
  an exponent, a hexadecimal literal, a value that a double rounds, text that is no number)
  is left to the parameter \<open>other\<close>.\<close>

definition str_num :: "(string \<Rightarrow> jsnum) \<Rightarrow> string \<Rightarrow> jsnum" where
  "str_num other s =
     (let t = trim s
      in if t = [] then Num 0
         else if list_all is_digit t \<and> digits_val t < 2 ^ 53 then Num (digits_val t)
         else other t)"

text \<open>\<^verbatim>\<open>Number(v)\<close>. An array or an object is first converted as \<^verbatim>\<open>String\<close> converts it and raises
  where that raises; the text \<^verbatim>\<open>[object Object]\<close> is no number.\<close>

fun js_Number :: "(string \<Rightarrow> jsnum) \<Rightarrow> json \<Rightarrow> exn + jsnum" where
  "js_Number other JNull = Inr (Num 0)"
| "js_Number other (JBool b) = Inr (Num (if b then 1 else 0))"
| "js_Number other (JNum n) = Inr (Num n)"
| "js_Number other (JStr s) = Inr (str_num other s)"
| "js_Number other (JArr xs) =
     (case js_String (JArr xs) of Inl x \<Rightarrow> Inl x | Inr s \<Rightarrow> Inr (str_num other s))"
| "js_Number other (JObj kvs) =
     (case js_String (JObj kvs) of Inl x \<Rightarrow> Inl x | Inr s \<Rightarrow> Inr NaN)"

section \<open>The model gateway (model-router server)\<close>

record ModelSpec =
  spec_id :: string
  provider :: string
  model :: string
  api_url :: string
  api_key :: string
  system_prompt :: string

text \<open>\<^verbatim>\<open>typeof v === "object"\<close>: true of null, arrays and objects.\<close>

fun is_object :: "json \<Rightarrow> bool" where
  "is_object JNull = True"
| "is_object (JArr xs) = True"
| "is_object (JObj kvs) = True"
| "is_object _ = False"

text \<open>\<^verbatim>\<open>toModelSpec(input, fallbackId)\<close>; the input may be undefined (\<open>None\<close>). The conversions
  run in the order of the source: \<^verbatim>\<open>provider\<close> and \<^verbatim>\<open>model\<close> before the test, the other four
  fields after it.\<close>

definition toModelSpec :: "json option \<Rightarrow> string \<Rightarrow> exn + ModelSpec option" where
  "toModelSpec input fallbackId =
     (case input of
        None \<Rightarrow> Inr None
      | Some obj \<Rightarrow>
          if \<not> truthy obj \<or> \<not> is_object obj then Inr None
          else
            (case js_String (js_or (get obj ''provider'') (JStr [])) of
               Inl x \<Rightarrow> Inl x
             | Inr providerText \<Rightarrow>
            (case js_String (js_or (get obj ''model'') (JStr [])) of
               Inl x \<Rightarrow> Inl x
             | Inr modelText \<Rightarrow>
                 if toLowerCase providerText = [] \<or> trim modelText = [] then Inr None
                 else
            (case js_String (js_or (get obj ''id'') (JStr fallbackId)) of
               Inl x \<Rightarrow> Inl x
             | Inr idText \<Rightarrow>
            (case js_String (js_or (get obj ''api_url'') (JStr [])) of
               Inl x \<Rightarrow> Inl x
             | Inr urlText \<Rightarrow>
            (case js_String (js_or (get obj ''api_key'') (JStr [])) of
               Inl x \<Rightarrow> Inl x
             | Inr keyText \<Rightarrow>
            (case js_String (js_or (get obj ''system_prompt'') (JStr [])) of
               Inl x \<Rightarrow> Inl x
             | Inr systemText \<Rightarrow>
                 Inr (Some \<lparr>spec_id = idText,
                            provider = toLowerCase providerText,
                            model = trim modelText,
                            api_url = urlText,
                            api_key = keyText,
                            system_prompt = systemText\<rparr>))))))))"

text \<open>The prompts are fixed instruction lines around the data listed here; the dictionaries
  are embedded as \<^verbatim>\<open>JSON.stringify\<close> text. The model keeps the data.\<close>

datatype prompt =
    UserPrompt string
  | ProposalPrompt string
  | CritiquePrompt string dict
  | SynthesisPrompt string dict "(int \<times> dict) list"

text \<open>The request body per provider shape: model name, system text and prompt. The numeric
  limits (\<^verbatim>\<open>timeoutSec\<close>, \<^verbatim>\<open>temperature\<close>, \<^verbatim>\<open>maxTokens\<close>) are read from the arguments by the tools
  (which can raise) and copied into the request; they decide nothing in the gateway, and
  the requests of the model leave them out.\<close>

datatype payload =
    ChatPayload string string prompt
  | AnthropicPayload string string prompt
  | GeminiPayload string prompt

record http_request =
  req_url :: string
  req_headers :: dict
  req_payload :: payload

record http_response =
  status :: nat
  parsed :: json
  raw :: string

text \<open>\<^verbatim>\<open>httpPostJson\<close> resolves with a response (status 0 when the transport failed or timed
  out), or raises before anything is sent (\<^verbatim>\<open>new URL\<close> on a malformed address, a header
  value that cannot be sent).\<close>

datatype http_outcome = Raised | Responded http_response

record call_result =
  call_code :: nat
  call_text :: string

text \<open>The trace of a run: one entry per call of the gateway, in order, with the participant
  and prompt it was given, the request it sent (\<open>None\<close> when it returned before sending one)
  and the result it returned. The source keeps no such log; the model threads it to state
  what a run did.\<close>

record gateway_call =
  gc_spec :: ModelSpec
  gc_prompt :: prompt
  gc_request :: "http_request option"
  gc_result :: call_result

type_synonym trace = "gateway_call list"

definition requests_sent :: "trace \<Rightarrow> http_request list" where
  "requests_sent tr = concat (map (\<lambda>c. case gc_request c of None \<Rightarrow> [] | Some r \<Rightarrow> [r]) tr)"

text \<open>The environment of the gateway: the network, as a function of the requests sent so
  far and the request; \<^verbatim>\<open>JSON.stringify(v, null, 2)\<close>; and \<^verbatim>\<open>Number\<close> on the strings that
  \<open>str_num\<close> leaves open.\<close>

record env =
  post :: "http_request list \<Rightarrow> http_request \<Rightarrow> http_outcome"
  stringify :: "json \<Rightarrow> string"
  other_num :: "string \<Rightarrow> jsnum"

definition newline :: string where
  "newline = [CHR 0x0A]"

definition text_chunks :: "json list \<Rightarrow> string list" where
  "text_chunks items =
     concat (map (\<lambda>item. if truthy item \<and> is_object item
                           then (case get item ''text'' of Some (JStr s) \<Rightarrow> [s] | _ \<Rightarrow> [])
                           else []) items)"

text \<open>Reading a property of \<^verbatim>\<open>null\<close> raises a TypeError: a 2xx response whose body is the
  JSON text \<^verbatim>\<open>null\<close> makes each extractor raise. \<^verbatim>\<open>String(content)\<close> raises as \<open>js_String\<close>
  does.\<close>

definition extractOpenAIText :: "env \<Rightarrow> json \<Rightarrow> exn + string" where
  "extractOpenAIText e resp =
     (if resp = JNull then Inl TypeError
      else
        let choices = (case get resp ''choices'' of Some (JArr xs) \<Rightarrow> xs | _ \<Rightarrow> [])
        in case choices of
             [] \<Rightarrow> Inr (stringify e resp)
           | c0 # _ \<Rightarrow>
               if \<not> is_object c0 \<or> \<not> truthy c0 then Inr (stringify e resp)
               else
                 let content = (case get c0 ''message'' of
                                  None \<Rightarrow> None
                                | Some JNull \<Rightarrow> None
                                | Some message \<Rightarrow> get message ''content'')
                 in (case content of
                       Some (JStr s) \<Rightarrow> Inr s
                     | Some (JArr items) \<Rightarrow> Inr (join newline (text_chunks items))
                     | None \<Rightarrow> Inr []
                     | Some JNull \<Rightarrow> Inr []
                     | Some v \<Rightarrow> js_String v))"

definition extractAnthropicText :: "env \<Rightarrow> json \<Rightarrow> exn + string" where
  "extractAnthropicText e resp =
     (if resp = JNull then Inl TypeError
      else
        let content = (case get resp ''content'' of Some (JArr xs) \<Rightarrow> xs | _ \<Rightarrow> []);
            chunks = concat (map (\<lambda>item. if truthy item \<and> is_object item
                                         then (case (get item ''type'', get item ''text'') of
                                                 (Some (JStr t), Some (JStr s)) \<Rightarrow>
                                                   if t = ''text'' then [s] else []
                                               | _ \<Rightarrow> [])
                                         else []) content);
            joined = trim (join newline chunks)
        in Inr (if joined = [] then stringify e resp else joined))"

definition extractGeminiText :: "env \<Rightarrow> json \<Rightarrow> exn + string" where
  "extractGeminiText e resp =
     (if resp = JNull then Inl TypeError
      else
        let candidates = (case get resp ''candidates'' of Some (JArr xs) \<Rightarrow> xs | _ \<Rightarrow> [])
        in case candidates of
             [] \<Rightarrow> Inr (stringify e resp)
           | c0 # _ \<Rightarrow>
               if \<not> truthy c0 \<or> \<not> is_object c0 then Inr (stringify e resp)
               else
                 let content = js_or (get c0 ''content'') (JObj []);
                     parts = (case get content ''parts'' of Some (JArr xs) \<Rightarrow> xs | _ \<Rightarrow> []);
                     joined = trim (join newline (text_chunks parts))
                 in Inr (if joined = [] then stringify e resp else joined))"

text \<open>\<^verbatim>\<open>s.replace(/\/+$/g, "")\<close>: trailing slashes removed.\<close>

definition strip_slashes :: "string \<Rightarrow> string" where
  "strip_slashes s = rev (dropWhile (\<lambda>c. c = CHR ''/'') (rev s))"

definition hex_char :: "nat \<Rightarrow> char" where
  "hex_char d = ''0123456789ABCDEF'' ! d"

definition percent :: "nat \<Rightarrow> string" where
  "percent b = [CHR ''%'', hex_char (b div 16), hex_char (b mod 16)]"

text \<open>\<^verbatim>\<open>encodeURIComponent\<close>: letters, digits and \<^verbatim>\<open>- _ . ! ~ * ' ( )\<close> stay; any other code
  point is the percent-encoding of its UTF-8 bytes (two bytes from U+0080 to U+00FF).\<close>

definition unreserved :: "char \<Rightarrow> bool" where
  "unreserved c =
     (let n = (of_char c :: nat)
      in (48 \<le> n \<and> n \<le> 57) \<or> (65 \<le> n \<and> n \<le> 90) \<or> (97 \<le> n \<and> n \<le> 122)
         \<or> n \<in> {45, 95, 46, 33, 126, 42, 39, 40, 41})"

definition encodeURIComponent :: "string \<Rightarrow> string" where
  "encodeURIComponent s =
     concat (map (\<lambda>c. let n = (of_char c :: nat)
                      in if unreserved c then [c]
                         else if n < 128 then percent n
                         else percent (192 + n div 64) @ percent (128 + n mod 64)) s)"

definition default_system :: "string \<Rightarrow> string" where
  "default_system s = (if s = [] then ''You are a helpful assistant.'' else s)"

text \<open>\<^verbatim>\<open>callModel\<close>, first half: the provider branches that either return early with code 2
  or fix the address, the headers and the body of the request.\<close>

definition buildRequest :: "ModelSpec \<Rightarrow> prompt \<Rightarrow> call_result + http_request" where
  "buildRequest spec prompt =
     (if provider spec = ''openai'' then
        (if api_key spec = [] then
           Inl \<lparr>call_code = 2, call_text = ''['' @ spec_id spec @ ''] missing api_key for openai.''\<rparr>
         else
           Inr \<lparr>req_url = strip_slashes (if api_url spec = [] then ''https://api.openai.com/v1''
                                         else api_url spec) @ ''/chat/completions'',
                req_headers = [(''Authorization'', ''Bearer '' @ api_key spec)],
                req_payload = ChatPayload (model spec) (default_system (system_prompt spec)) prompt\<rparr>)
      else if provider spec = ''anthropic'' then
        (if api_key spec = [] then
           Inl \<lparr>call_code = 2, call_text = ''['' @ spec_id spec @ ''] missing api_key for anthropic.''\<rparr>
         else
           Inr \<lparr>req_url = strip_slashes (if api_url spec = [] then ''https://api.anthropic.com/v1/messages''
                                         else api_url spec),
                req_headers = [(''x-api-key'', api_key spec), (''anthropic-version'', ''2023-06-01'')],
                req_payload = AnthropicPayload (model spec) (default_system (system_prompt spec)) prompt\<rparr>)
      else if provider spec = ''gemini'' then
        (if api_url spec \<noteq> [] then
           Inr \<lparr>req_url = api_url spec,
                req_headers = (if api_key spec \<noteq> [] then [(''x-goog-api-key'', api_key spec)] else []),
                req_payload = GeminiPayload (default_system (system_prompt spec)) prompt\<rparr>
         else if api_key spec = [] then
           Inl \<lparr>call_code = 2, call_text = ''['' @ spec_id spec @ ''] missing api_key for gemini.''\<rparr>
         else
           Inr \<lparr>req_url = ''https://generativelanguage.googleapis.com/v1beta/models/''
                          @ encodeURIComponent (model spec) @ '':generateContent?key=''
                          @ encodeURIComponent (api_key spec),
                req_headers = [],
                req_payload = GeminiPayload (default_system (system_prompt spec)) prompt\<rparr>)
      else if provider spec = ''custom'' then
        (if api_url spec = [] then
           Inl \<lparr>call_code = 2,
                call_text = ''['' @ spec_id spec @ ''] missing api_url for custom provider.''\<rparr>
         else
           Inr \<lparr>req_url = api_url spec,
                req_headers = (if api_key spec \<noteq> [] then [(''Authorization'', ''Bearer '' @ api_key spec)]
                               else []),
                req_payload = ChatPayload (model spec) (default_system (system_prompt spec)) prompt\<rparr>)
      else
        Inl \<lparr>call_code = 2,
             call_text = ''['' @ spec_id spec @ ''] unsupported provider: '' @ provider spec\<rparr>)"

text \<open>The extractor chosen by provider once the response is a success.\<close>

definition extractText :: "env \<Rightarrow> ModelSpec \<Rightarrow> json \<Rightarrow> exn + string" where
  "extractText e spec resp =
     (if provider spec = ''openai'' \<or> provider spec = ''custom'' then extractOpenAIText e resp
      else if provider spec = ''anthropic'' then extractAnthropicText e resp
      else extractGeminiText e resp)"

text \<open>\<^verbatim>\<open>callModel\<close>. The result is the gateway's \<open>{code, text}\<close> with the extended trace, or an
  exception. An early return sends nothing and does not consult the network.\<close>

definition callModel :: "env \<Rightarrow> ModelSpec \<Rightarrow> prompt \<Rightarrow> trace \<Rightarrow> exn + (call_result \<times> trace)" where
  "callModel e spec prompt tr =
     (let logged = (\<lambda>rq r. Inr (r, tr @ [\<lparr>gc_spec = spec, gc_prompt = prompt,
                                           gc_request = rq, gc_result = r\<rparr>]))
      in case buildRequest spec prompt of
           Inl early \<Rightarrow> logged None early
         | Inr req \<Rightarrow>
             (case post e (requests_sent tr) req of
                Raised \<Rightarrow> Inl RequestRaised
              | Responded result \<Rightarrow>
                  if status result \<ge> 400 \<or> status result = 0 then
                    logged (Some req)
                      \<lparr>call_code = (if status result = 0 then 1 else status result),
                       call_text = raw result\<rparr>
                  else
                    (case extractText e spec (parsed result) of
                       Inl x \<Rightarrow> Inl x
                     | Inr t \<Rightarrow> logged (Some req) \<lparr>call_code = 0, call_text = t\<rparr>)))"

section \<open>The orchestration engine (\<^verbatim>\<open>runBrainstorm\<close>)\<close>

record report =
  requirement :: string
  participants :: "string list"
  debate_rounds :: jsnum
  synthesis_by :: string
  proposals :: dict
  debates :: "(int \<times> dict) list"
  synthesis :: string
  errors :: "string list"

text \<open>The text of a tool result is a plain message or the \<^verbatim>\<open>JSON.stringify\<close> text of the
  brainstorm report; the model keeps the report itself.\<close>

datatype tool_text = Plain string | ReportText report

record ToolResult =
  content :: "tool_text list"
  isError :: bool

text \<open>\<^verbatim>\<open>rawParticipants.forEach((item, idx) => ...)\<close>: the entries that \<open>toModelSpec\<close> accepts,
  in order; the fallback id counts the position in the raw list from 1. An entry on which
  \<open>toModelSpec\<close> raises ends the loop with that exception.\<close>

fun collectParticipants :: "nat \<Rightarrow> json list \<Rightarrow> exn + ModelSpec list" where
  "collectParticipants idx [] = Inr []"
| "collectParticipants idx (item # items) =
     (case toModelSpec (Some item) (''model_'' @ dec (idx + 1)) of
        Inl x \<Rightarrow> Inl x
      | Inr spec \<Rightarrow>
          (case collectParticipants (idx + 1) items of
             Inl x \<Rightarrow> Inl x
           | Inr ps \<Rightarrow> Inr (case spec of None \<Rightarrow> ps | Some sp \<Rightarrow> sp # ps)))"

text \<open>The state a stage threads through its loop: the dictionary it fills, the error log
  and the trace.\<close>

type_synonym stage_state = "dict \<times> string list \<times> trace"

fun proposalStage :: "env \<Rightarrow> string \<Rightarrow> ModelSpec list \<Rightarrow> stage_state \<Rightarrow> exn + stage_state" where
  "proposalStage e req [] st = Inr st"
| "proposalStage e req (m # ms) (props, errs, tr) =
     (case callModel e m (ProposalPrompt req) tr of
        Inl x \<Rightarrow> Inl x
      | Inr (call, tr') \<Rightarrow>
          if call_code call \<noteq> 0 then
            proposalStage e req ms
              (js_set props (spec_id m) (''(failed) '' @ call_text call),
               errs @ [''[proposal:'' @ spec_id m @ ''] code='' @ dec (call_code call)],
               tr')
          else
            proposalStage e req ms (js_set props (spec_id m) (trim (call_text call)), errs, tr'))"

text \<open>\<^verbatim>\<open>others\<close>: the entries of \<open>latestInputs\<close> whose key is not the acting participant's id.\<close>

definition others_of :: "dict \<Rightarrow> string \<Rightarrow> dict" where
  "others_of latestInputs i =
     foldl (\<lambda>others (k, v). if k \<noteq> i then js_set others k v else others) [] latestInputs"

text \<open>One debate round, number \<open>i\<close>: the inner loop over the participants.\<close>

fun debateRound ::
  "env \<Rightarrow> string \<Rightarrow> int \<Rightarrow> dict \<Rightarrow> ModelSpec list \<Rightarrow> stage_state \<Rightarrow> exn + stage_state" where
  "debateRound e req i latestInputs [] st = Inr st"
| "debateRound e req i latestInputs (m # ms) (responses, errs, tr) =
     (case callModel e m (CritiquePrompt req (others_of latestInputs (spec_id m))) tr of
        Inl x \<Rightarrow> Inl x
      | Inr (call, tr') \<Rightarrow>
          if call_code call \<noteq> 0 then
            debateRound e req i latestInputs ms
              (js_set responses (spec_id m) (''(failed) '' @ call_text call),
               errs @ [''[debate-r'' @ dec_int i @ '':'' @ spec_id m @ ''] code='' @ dec (call_code call)],
               tr')
          else
            debateRound e req i latestInputs ms
              (js_set responses (spec_id m) (trim (call_text call)), errs, tr'))"

text \<open>\<^verbatim>\<open>for (let i = 1; i <= debateRounds; i += 1)\<close>, started at \<open>i\<close>.\<close>

type_synonym debate_state = "(int \<times> dict) list \<times> dict \<times> string list \<times> trace"

function debateLoop ::
  "env \<Rightarrow> string \<Rightarrow> ModelSpec list \<Rightarrow> jsnum \<Rightarrow> int \<Rightarrow> debate_state \<Rightarrow> exn + debate_state" where
  "debateLoop e req ps debateRounds i (rounds, latestInputs, errs, tr) =
     (if js_le i debateRounds then
        (case debateRound e req i latestInputs ps ([], errs, tr) of
           Inl x \<Rightarrow> Inl x
         | Inr (responses, errs', tr') \<Rightarrow>
             debateLoop e req ps debateRounds (i + 1)
               (rounds @ [(i, responses)], responses, errs', tr'))
      else Inr (rounds, latestInputs, errs, tr))"
  by pat_completeness auto
termination
  by (relation "measure (\<lambda>(e, req, ps, r, i, st). case r of NaN \<Rightarrow> 0 | Num n \<Rightarrow> nat (n + 1 - i))")
     (auto split: jsnum.splits)

declare debateLoop.simps [simp del]

text \<open>The stages of \<^verbatim>\<open>runBrainstorm\<close> once its arguments are read (from the declaration of
  \<^verbatim>\<open>proposals\<close> to the end of the function); \<open>first\<close> is \<^verbatim>\<open>participants[0]\<close>.\<close>

definition runStages ::
  "env \<Rightarrow> string \<Rightarrow> ModelSpec \<Rightarrow> ModelSpec list \<Rightarrow> jsnum \<Rightarrow> string \<Rightarrow> trace
     \<Rightarrow> exn + (ToolResult \<times> trace)" where
  "runStages e req first rest debateRounds synthesisBy tr =
     (let ps = first # rest
      in case proposalStage e req ps ([], [], tr) of
           Inl x \<Rightarrow> Inl x
         | Inr (props, errors1, tr1) \<Rightarrow>
             (case debateLoop e req ps debateRounds 1 ([], props, errors1, tr1) of
                Inl x \<Rightarrow> Inl x
              | Inr (rounds, latestInputs, errors2, tr2) \<Rightarrow>
                  let synthModel =
                        (case find (\<lambda>m. spec_id m = synthesisBy) ps of
                           Some m \<Rightarrow> m
                         | None \<Rightarrow> first)
                  in (case callModel e synthModel (SynthesisPrompt req props rounds) tr2 of
                        Inl x \<Rightarrow> Inl x
                      | Inr (synth, tr3) \<Rightarrow>
                          let errors3 =
                                (if call_code synth \<noteq> 0
                                 then errors2 @ [''[synthesis:'' @ spec_id synthModel
                                                 @ ''] code='' @ dec (call_code synth)]
                                 else errors2)
                          in Inr (\<lparr>content =
                                     [ReportText
                                        \<lparr>requirement = req,
                                         participants = map spec_id ps,
                                         debate_rounds = debateRounds,
                                         synthesis_by = spec_id synthModel,
                                         proposals = props,
                                         debates = rounds,
                                         synthesis = call_text synth,
                                         errors = errors3\<rparr>],
                                   isError = (errors3 \<noteq> [])\<rparr>, tr3))))"

text \<open>\<^verbatim>\<open>Number(argumentsObj.temperature || 0.2)\<close>. The default 0.2 is no integer; \<open>None\<close> stands
  for it.\<close>

definition temperature_arg :: "(string \<Rightarrow> jsnum) \<Rightarrow> json option \<Rightarrow> exn + jsnum option" where
  "temperature_arg other x =
     (case x of
        None \<Rightarrow> Inr None
      | Some v \<Rightarrow>
          if truthy v then (case js_Number other v of Inl ex \<Rightarrow> Inl ex | Inr n \<Rightarrow> Inr (Some n))
          else Inr None)"

text \<open>\<^verbatim>\<open>runBrainstorm\<close>: the arguments are read in the order of the source, each conversion
  raising or returning, with the two validation returns in between.\<close>

definition runBrainstorm ::
  "env \<Rightarrow> json \<Rightarrow> trace \<Rightarrow> exn + (ToolResult \<times> trace)" where
  "runBrainstorm e argumentsObj tr =
     (case js_String (js_or (get argumentsObj ''requirement'') (JStr [])) of
        Inl x \<Rightarrow> Inl x
      | Inr requirementText \<Rightarrow>
          if trim requirementText = [] then
            Inr (\<lparr>content = [Plain ''`requirement` is required.''], isError = True\<rparr>, tr)
          else
            (case collectParticipants 0
                    (case get argumentsObj ''participants'' of Some (JArr xs) \<Rightarrow> xs | _ \<Rightarrow> []) of
               Inl x \<Rightarrow> Inl x
             | Inr [] \<Rightarrow>
                 Inr (\<lparr>content = [Plain ''`participants` must include at least one valid model.''],
                       isError = True\<rparr>, tr)
             | Inr (first # rest) \<Rightarrow>
            (case js_Number (other_num e) (js_or (get argumentsObj ''debate_rounds'') (JNum 1)) of
               Inl x \<Rightarrow> Inl x
             | Inr rounds \<Rightarrow>
            (case js_String (js_or (get argumentsObj ''synthesis_by'') (JStr (spec_id first))) of
               Inl x \<Rightarrow> Inl x
             | Inr synthesisBy \<Rightarrow>
            (case js_Number (other_num e) (js_or (get argumentsObj ''timeout_sec'') (JNum 180)) of
               Inl x \<Rightarrow> Inl x
             | Inr timeoutSec \<Rightarrow>
            (case temperature_arg (other_num e) (get argumentsObj ''temperature'') of
               Inl x \<Rightarrow> Inl x
             | Inr temperature \<Rightarrow>
            (case js_Number (other_num e) (js_or (get argumentsObj ''max_tokens'') (JNum 2048)) of
               Inl x \<Rightarrow> Inl x
             | Inr maxTokens \<Rightarrow>
                 runStages e (trim requirementText) first rest
                   (js_max (Num 0) (js_min (Num 5) rounds)) synthesisBy tr)))))))"


section \<open>The framed transport (both servers)\<close>






definition CR :: char where "CR = CHR 0x0D"
definition LF :: char where "LF = CHR 0x0A"













section \<open>The sandboxed execution bridge (claude-runner server)\<close>

subsection \<open>Paths\<close>

text \<open>The POSIX \<^verbatim>\<open>path\<close> module on absolute paths: a path is cut at the slashes, empty and
  \<^verbatim>\<open>.\<close> segments are dropped and a \<^verbatim>\<open>..\<close> segment removes the segment before it (none at
  the root).\<close>

fun split_char :: "char \<Rightarrow> string \<Rightarrow> string \<Rightarrow> string list" where
  "split_char sep cur [] = [cur]"
| "split_char sep cur (c # cs) =
     (if c = sep then cur # split_char sep [] cs else split_char sep (cur @ [c]) cs)"

fun normalize :: "string list \<Rightarrow> string list \<Rightarrow> string list" where
  "normalize acc [] = rev acc"
| "normalize acc (seg # segs) =
     (if seg = [] \<or> seg = ''.'' then normalize acc segs
      else if seg = ''..'' then normalize (case acc of [] \<Rightarrow> [] | x # xs \<Rightarrow> xs) segs
      else normalize (seg # acc) segs)"

definition segments :: "string \<Rightarrow> string list" where
  "segments p = normalize [] (split_char CHR ''/'' [] p)"

text \<open>\<^verbatim>\<open>path.resolve(base, p)\<close> for an absolute \<open>base\<close>; \<^verbatim>\<open>path.resolve(p)\<close> is the case where
  \<open>base\<close> is the working directory of the process.\<close>

definition resolve :: "string \<Rightarrow> string \<Rightarrow> string" where
  "resolve base p =
     CHR ''/'' # join ''/'' (segments (if take 1 p = ''/'' then p else base @ ''/'' @ p))"

fun strip_common :: "string list \<Rightarrow> string list \<Rightarrow> string list \<times> string list" where
  "strip_common (x # xs) (y # ys) = (if x = y then strip_common xs ys else (x # xs, y # ys))"
| "strip_common xs ys = (xs, ys)"

text \<open>\<^verbatim>\<open>path.relative(from, to)\<close>: both are resolved, the common leading segments are removed,
  and the result climbs out of what is left of \<open>from\<close> and descends into what is left of
  \<open>to\<close>. It is empty when the two are the same path.\<close>

definition relative :: "string \<Rightarrow> string \<Rightarrow> string \<Rightarrow> string" where
  "relative base from to =
     (case strip_common (segments (resolve base from)) (segments (resolve base to)) of
        (f, t) \<Rightarrow> join ''/'' (replicate (length f) ''..'' @ t))"

definition isUnder :: "string \<Rightarrow> string \<Rightarrow> string \<Rightarrow> bool" where
  "isUnder base root target =
     (let rel = relative base root target
      in rel = [] \<or> (take 2 rel \<noteq> ''..'' \<and> take 1 rel \<noteq> ''/''))"

datatype validation = Ok string | Outside string

text \<open>\<^verbatim>\<open>validateCwd(rawCwd, roots)\<close>; \<open>base\<close> is \<^verbatim>\<open>process.cwd()\<close> and \<open>None\<close> is undefined.\<close>

definition validateCwd :: "string \<Rightarrow> string option \<Rightarrow> string list \<Rightarrow> validation" where
  "validateCwd base rawCwd roots =
     (let cwd = resolve base (case rawCwd of None \<Rightarrow> base | Some r \<Rightarrow> if r = [] then base else r)
      in if list_ex (\<lambda>root. isUnder base root cwd) roots then Ok cwd
         else Outside (''cwd '' @ [CHR 0x27] @ cwd @ [CHR 0x27] @ '' is outside allowed roots: ''
                       @ join '', '' roots))"

text \<open>\<^verbatim>\<open>parseAllowedRoots\<close>; \<open>rawRoots\<close> is the value of \<^verbatim>\<open>CLAUDE_RUNNER_ALLOWED_ROOTS\<close>, empty
  when unset.\<close>

definition parseAllowedRoots :: "string \<Rightarrow> string \<Rightarrow> string list" where
  "parseAllowedRoots base rawRoots =
     (let roots = map (resolve base)
                    (filter (\<lambda>x. x \<noteq> []) (map trim (split_char CHR '','' [] (trim rawRoots))))
      in if roots \<noteq> [] then roots else [resolve base base])"

subsection \<open>Running the external command\<close>

record run_result =
  exitCode :: int
  stdout :: string
  stderr :: string
  timedOut :: bool

text \<open>What happens after \<^verbatim>\<open>spawn\<close>, in the order the event loop delivers it: the timer
  fires, the child writes, the child's streams close with its exit code (\<open>None\<close> when a
  signal ended it), or the child object emits an error (it could not be started, or the
  kill could not be delivered).\<close>

datatype event =
    TimerFires
  | StdoutData string
  | StderrData string
  | Close "int option"
  | ErrorEvent string

text \<open>The state of one \<^verbatim>\<open>runClaude\<close> call: the chunks collected, the flag, whether the timer
  is still armed, whether SIGKILL was sent, and the value the promise resolved with (the
  first \<^verbatim>\<open>resolve\<close> wins).\<close>

record run_state =
  stdoutChunks :: "string list"
  stderrChunks :: "string list"
  timedOut_flag :: bool
  timer_armed :: bool
  killed :: bool
  resolved :: "run_result option"

definition initial_run :: run_state where
  "initial_run = \<lparr>stdoutChunks = [], stderrChunks = [], timedOut_flag = False, timer_armed = True,
                   killed = False, resolved = None\<rparr>"

definition settle :: "run_result \<Rightarrow> run_state \<Rightarrow> run_state" where
  "settle r st = (case resolved st of None \<Rightarrow> st\<lparr>resolved := Some r\<rparr> | Some r0 \<Rightarrow> st)"

fun handle :: "run_state \<Rightarrow> event \<Rightarrow> run_state" where
  "handle st TimerFires =
     (if timer_armed st then st\<lparr>timedOut_flag := True, killed := True, timer_armed := False\<rparr> else st)"
| "handle st (StdoutData chunk) = st\<lparr>stdoutChunks := stdoutChunks st @ [chunk]\<rparr>"
| "handle st (StderrData chunk) = st\<lparr>stderrChunks := stderrChunks st @ [chunk]\<rparr>"
| "handle st (Close code) =
     settle \<lparr>exitCode = (if timedOut_flag st then 124 else (case code of None \<Rightarrow> 1 | Some c \<Rightarrow> c)),
             stdout = concat (stdoutChunks st),
             stderr = concat (stderrChunks st),
             timedOut = timedOut_flag st\<rparr>
       (st\<lparr>timer_armed := False\<rparr>)"
| "handle st (ErrorEvent msg) =
     settle \<lparr>exitCode = 1, stdout = [], stderr = msg, timedOut = False\<rparr> (st\<lparr>timer_armed := False\<rparr>)"

definition run_events :: "event list \<Rightarrow> run_state" where
  "run_events es = foldl handle initial_run es"

text \<open>\<^verbatim>\<open>runClaude\<close> for a child whose events are \<open>es\<close>: the value of the promise, \<open>None\<close> when it
  never resolves.\<close>

definition runClaude :: "event list \<Rightarrow> run_result option" where
  "runClaude es = resolved (run_events es)"

definition bool_text :: "bool \<Rightarrow> string" where
  "bool_text b = (if b then ''true'' else ''false'')"

definition formatRun :: "run_result \<Rightarrow> string \<Rightarrow> string" where
  "formatRun worker cwd =
     join newline
       [''# Claude Runner Result'',
        [],
        ''- exit_code: '' @ dec_int (exitCode worker),
        ''- timed_out: '' @ toLowerCase (bool_text (timedOut worker)),
        ''- cwd: '' @ cwd,
        ''- command: claude -p <prompt>'',
        [],
        ''## stdout'',
        [],
        trim (stdout worker),
        [],
        ''## stderr'',
        [],
        trim (stderr worker),
        []]"

subsection \<open>The tools\<close>

datatype file_state = Missing | Unreadable | Content string

text \<open>A request to start the command: \<^verbatim>\<open>spawn("claude", ["-p", prompt], {cwd})\<close> with the timer
  set to \<open>timeoutSec\<close>.\<close>

record spawn_request =
  sp_prompt :: string
  sp_cwd :: string
  sp_timeoutSec :: jsnum

text \<open>What \<^verbatim>\<open>spawn\<close> does with a request: it raises (an argument it refuses, such as a prompt
  with a NUL character), or the child runs and its events follow.\<close>

datatype process = SpawnRaises | Runs "event list"

record runner_env =
  process_cwd :: string
  file_at :: "string \<Rightarrow> file_state"
  spawn :: "spawn_request list \<Rightarrow> spawn_request \<Rightarrow> process"
  number_of :: "string \<Rightarrow> jsnum"

datatype runner_exn = SpawnRaised | NeverResolves | ArgumentRaised exn

text \<open>\<^verbatim>\<open>content.slice(0, maxChars)\<close>.\<close>

fun slice0 :: "string \<Rightarrow> jsnum \<Rightarrow> string" where
  "slice0 s NaN = []"
| "slice0 s (Num n) = (if n < 0 then take (length s - nat (- n)) s else take (nat n) s)"

fun file_chunks :: "runner_env \<Rightarrow> string \<Rightarrow> jsnum \<Rightarrow> string list \<Rightarrow> string list" where
  "file_chunks e cwd maxChars [] = []"
| "file_chunks e cwd maxChars (rel # files) =
     (case file_at e (resolve cwd rel) of
        Missing \<Rightarrow> [newline @ ''[FILE: '' @ rel @ '']'', ''(missing)'']
      | Unreadable \<Rightarrow> [newline @ ''[FILE: '' @ rel @ '']'', slice0 ''(read failed)'' maxChars]
      | Content c \<Rightarrow> [newline @ ''[FILE: '' @ rel @ '']'', slice0 c maxChars])
     @ file_chunks e cwd maxChars files"

definition appendFilesContext :: "runner_env \<Rightarrow> string \<Rightarrow> string \<Rightarrow> string list \<Rightarrow> jsnum \<Rightarrow> string" where
  "appendFilesContext e prompt cwd files maxChars =
     (if files = [] then prompt
      else join newline ([prompt, [], ''Context files:''] @ file_chunks e cwd maxChars files))"

text \<open>One call of \<^verbatim>\<open>runClaude\<close> from a tool, recorded in the list of commands started, and the
  tool result built from it.\<close>

definition run_tool ::
  "runner_env \<Rightarrow> string \<Rightarrow> string \<Rightarrow> jsnum \<Rightarrow> spawn_request list
     \<Rightarrow> runner_exn + (ToolResult \<times> spawn_request list)" where
  "run_tool e prompt cwd timeoutSec started =
     (let rq = \<lparr>sp_prompt = prompt, sp_cwd = cwd, sp_timeoutSec = timeoutSec\<rparr>
      in case spawn e started rq of
           SpawnRaises \<Rightarrow> Inl SpawnRaised
         | Runs es \<Rightarrow>
             (case runClaude es of
                None \<Rightarrow> Inl NeverResolves
              | Some run \<Rightarrow>
                  Inr (\<lparr>content = [Plain (formatRun run cwd)], isError = (exitCode run \<noteq> 0)\<rparr>,
                       started @ [rq])))"

text \<open>\<^verbatim>\<open>callTool\<close> of the claude-runner server. A conversion of an argument that raises ends
  the call with that exception.\<close>

definition callTool_runner ::
  "runner_env \<Rightarrow> string \<Rightarrow> json \<Rightarrow> string list \<Rightarrow> spawn_request list
     \<Rightarrow> runner_exn + (ToolResult \<times> spawn_request list)" where
  "callTool_runner e name argumentsObj roots started =
     (case validateCwd (process_cwd e)
             (case get argumentsObj ''cwd'' of Some (JStr c) \<Rightarrow> Some c | _ \<Rightarrow> None) roots of
        Outside err \<Rightarrow> Inr (\<lparr>content = [Plain err], isError = True\<rparr>, started)
      | Ok cwd \<Rightarrow>
     (case js_Number (number_of e) (js_or (get argumentsObj ''timeout_sec'') (JNum 180)) of
        Inl x \<Rightarrow> Inl (ArgumentRaised x)
      | Inr timeoutSec \<Rightarrow>
          if name = ''claude.one_shot'' then
            (case js_String (js_or (get argumentsObj ''prompt'') (JStr [])) of
               Inl x \<Rightarrow> Inl (ArgumentRaised x)
             | Inr promptText \<Rightarrow>
                 if trim promptText = [] then
                   Inr (\<lparr>content = [Plain ''`prompt` is required.''], isError = True\<rparr>, started)
                 else
            (case collect (map js_String (case get argumentsObj ''context_files'' of
                                            Some (JArr xs) \<Rightarrow> xs
                                          | _ \<Rightarrow> [])) of
               Inl x \<Rightarrow> Inl (ArgumentRaised x)
             | Inr files \<Rightarrow>
            (case js_Number (number_of e) (js_or (get argumentsObj ''max_file_chars'') (JNum 6000)) of
               Inl x \<Rightarrow> Inl (ArgumentRaised x)
             | Inr maxFileChars \<Rightarrow>
                 run_tool e (appendFilesContext e (trim promptText) cwd files maxFileChars) cwd
                   timeoutSec started)))
          else if name = ''claude.review_diff'' then
            (case js_String (js_or (get argumentsObj ''diff'') (JStr [])) of
               Inl x \<Rightarrow> Inl (ArgumentRaised x)
             | Inr diffText \<Rightarrow>
                 if trim diffText = [] then
                   Inr (\<lparr>content = [Plain ''`diff` is required.''], isError = True\<rparr>, started)
                 else
                   run_tool e
                     (join newline
                        [''You are a strict code reviewer.'',
                         ''Review the diff and output:'',
                         ''1) Findings ordered by severity'',
                         ''2) Open questions'',
                         ''3) Regression risks'',
                         [],
                         ''Diff:'',
                         trim diffText,
                         []])
                     cwd timeoutSec started)
          else if name = ''claude.generate_patch'' then
            (case js_String (js_or (get argumentsObj ''task'') (JStr [])) of
               Inl x \<Rightarrow> Inl (ArgumentRaised x)
             | Inr taskText \<Rightarrow>
            (case js_String (js_or (get argumentsObj ''context'') (JStr [])) of
               Inl x \<Rightarrow> Inl (ArgumentRaised x)
             | Inr contextText \<Rightarrow>
                 if trim taskText = [] \<or> trim contextText = [] then
                   Inr (\<lparr>content = [Plain ''`task` and `context` are required.''], isError = True\<rparr>,
                        started)
                 else
                   run_tool e
                     (join newline
                        [''Generate a unified diff patch only.'',
                         ''No markdown fences, no prose.'',
                         [],
                         ''Task:'',
                         trim taskText,
                         [],
                         ''Context:'',
                         trim contextText,
                         []])
                     cwd timeoutSec started))
          else Inr (\<lparr>content = [Plain (''Unknown tool: '' @ name)], isError = True\<rparr>, started)))"

text \<open>A resolved path, by its segments: none is empty, \<^verbatim>\<open>.\<close> or \<^verbatim>\<open>..\<close>, none contains a slash.\<close>

definition clean :: "string \<Rightarrow> bool" where
  "clean seg = (seg \<noteq> [] \<and> seg \<noteq> ''.'' \<and> seg \<noteq> ''..'' \<and> CHR ''/'' \<notin> set seg)"

definition abs_path :: "string list \<Rightarrow> string" where
  "abs_path segs = CHR ''/'' # join ''/'' segs"

text \<open>The events that resolve the promise of \<^verbatim>\<open>runClaude\<close>.\<close>

fun settles :: "event \<Rightarrow> bool" where
  "settles (Close code) = True"
| "settles (ErrorEvent msg) = True"
| "settles ev = False"

subsection \<open>Reading a trace\<close>

text \<open>What the stages write for one gateway call: the dictionary entry and, for a nonzero
  code, the line of the error log.\<close>

definition failed :: "gateway_call \<Rightarrow> bool" where
  "failed c = (call_code (gc_result c) \<noteq> 0)"

definition error_line :: "string \<Rightarrow> gateway_call \<Rightarrow> string" where
  "error_line stage c =
     ''['' @ stage @ '':'' @ spec_id (gc_spec c) @ ''] code='' @ dec (call_code (gc_result c))"

definition entry_text :: "gateway_call \<Rightarrow> string" where
  "entry_text c = (if failed c then ''(failed) '' @ call_text (gc_result c)
                   else trim (call_text (gc_result c)))"

definition record_entry :: "dict \<Rightarrow> gateway_call \<Rightarrow> dict" where
  "record_entry d c = js_set d (spec_id (gc_spec c)) (entry_text c)"

text \<open>A network on which no gateway call raises: every request is answered, and no extractor
  raises on a success (its body is not the JSON text \<^verbatim>\<open>null\<close> and holds no content that
  \<^verbatim>\<open>String\<close> refuses).\<close>

definition no_raise :: "env \<Rightarrow> bool" where
  "no_raise e =
     (\<forall>h rq. \<exists>r. post e h rq = Responded r
                \<and> (400 \<le> status r \<or> status r = 0 \<or> (\<forall>spec. \<not> isl (extractText e spec (parsed r)))))"

text \<open>The number of times the debate loop body runs for a bound \<open>r\<close>.\<close>

fun rounds_run :: "jsnum \<Rightarrow> nat" where
  "rounds_run NaN = 0"
| "rounds_run (Num n) = nat n"

text \<open>The values \<^verbatim>\<open>runBrainstorm\<close> reads from its arguments. Where the conversion of a value
  raises, no run returns; the value is then given as the empty requirement, no participant,
  no number, the empty name.\<close>

definition requirement_of :: "json \<Rightarrow> string" where
  "requirement_of a =
     (case js_String (js_or (get a ''requirement'') (JStr [])) of Inl x \<Rightarrow> [] | Inr s \<Rightarrow> trim s)"

definition rawParticipants_of :: "json \<Rightarrow> json list" where
  "rawParticipants_of a = (case get a ''participants'' of Some (JArr xs) \<Rightarrow> xs | _ \<Rightarrow> [])"

definition participants_of :: "json \<Rightarrow> ModelSpec list" where
  "participants_of a =
     (case collectParticipants 0 (rawParticipants_of a) of Inl x \<Rightarrow> [] | Inr ps \<Rightarrow> ps)"

definition debateRounds_of :: "env \<Rightarrow> json \<Rightarrow> jsnum" where
  "debateRounds_of e a =
     (case js_Number (other_num e) (js_or (get a ''debate_rounds'') (JNum 1)) of
        Inl x \<Rightarrow> NaN
      | Inr n \<Rightarrow> js_max (Num 0) (js_min (Num 5) n))"

definition synthesisBy_of :: "json \<Rightarrow> ModelSpec list \<Rightarrow> string" where
  "synthesisBy_of a ps =
     (case js_String (js_or (get a ''synthesis_by'') (JStr (spec_id (hd ps)))) of
        Inl x \<Rightarrow> []
      | Inr s \<Rightarrow> s)"

definition synthModel_of :: "json \<Rightarrow> ModelSpec list \<Rightarrow> ModelSpec" where
  "synthModel_of a ps =
     (case find (\<lambda>m. spec_id m = synthesisBy_of a ps) ps of
        Some m \<Rightarrow> m
      | None \<Rightarrow> hd ps)"

text \<open>The \<^verbatim>\<open>provider\<close> and \<^verbatim>\<open>model\<close> of a participants entry, as properties that may be absent: a
  property is plain when it is absent or holds \<^verbatim>\<open>null\<close>, a boolean, a number or a string (values
  that \<^verbatim>\<open>String\<close> converts without looking inside); falsy when it is absent or holds
  \<^verbatim>\<open>null\<close>, \<^verbatim>\<open>false\<close>, 0 or the empty string, so that \<^verbatim>\<open>x || ""\<close> is the empty string; blank when it
  holds a string of white space only.\<close>

fun scalar :: "json \<Rightarrow> bool" where
  "scalar (JArr xs) = False"
| "scalar (JObj kvs) = False"
| "scalar v = True"

definition plain :: "json option \<Rightarrow> bool" where
  "plain x = (case x of None \<Rightarrow> True | Some v \<Rightarrow> scalar v)"

definition falsy :: "json option \<Rightarrow> bool" where
  "falsy x = (case x of None \<Rightarrow> True | Some v \<Rightarrow> \<not> truthy v)"

definition blank :: "json option \<Rightarrow> bool" where
  "blank x = (case x of Some (JStr s) \<Rightarrow> trim s = [] | _ \<Rightarrow> False)"

text \<open>The numeric limits of a tool call (\<^verbatim>\<open>timeout_sec\<close>, \<^verbatim>\<open>temperature\<close>, \<^verbatim>\<open>max_tokens\<close>) convert
  without raising; so do, besides, the other optional arguments of \<^verbatim>\<open>model.brainstorm\<close>
  (\<^verbatim>\<open>debate_rounds\<close>, \<^verbatim>\<open>synthesis_by\<close>).\<close>

definition limits_read :: "env \<Rightarrow> json \<Rightarrow> bool" where
  "limits_read e a =
     (\<not> isl (js_Number (other_num e) (js_or (get a ''timeout_sec'') (JNum 180)))
      \<and> \<not> isl (temperature_arg (other_num e) (get a ''temperature''))
      \<and> \<not> isl (js_Number (other_num e) (js_or (get a ''max_tokens'') (JNum 2048))))"

definition options_read :: "env \<Rightarrow> json \<Rightarrow> bool" where
  "options_read e a =
     (\<not> isl (js_Number (other_num e) (js_or (get a ''debate_rounds'') (JNum 1)))
      \<and> \<not> isl (js_String (js_or (get a ''synthesis_by'') (JStr [])))
      \<and> limits_read e a)"

text \<open>The calls of consecutive debate rounds, round by round: round \<open>i\<close> asks every participant
  in order, each prompt carries \<open>others_of\<close> the pool for the participant asked, the
  responses are what the calls returned, and they are the pool of round \<open>i + 1\<close>.\<close>

fun round_chain ::
  "string \<Rightarrow> ModelSpec list \<Rightarrow> int \<Rightarrow> dict \<Rightarrow> (int \<times> dict) list \<Rightarrow> trace list \<Rightarrow> bool" where
  "round_chain req ps i pool [] [] = True"
| "round_chain req ps i pool ((j, resp) # rs) (D # Ds) =
     (j = i \<and> map gc_spec D = ps
      \<and> (\<forall>c\<in>set D. gc_prompt c = CritiquePrompt req (others_of pool (spec_id (gc_spec c))))
      \<and> resp = foldl record_entry [] D
      \<and> round_chain req ps (i + 1) resp rs Ds)"
| "round_chain req ps i pool rs Ds = False"

text \<open>The error lines of the debate rounds, in order.\<close>

fun debate_errors :: "(int \<times> dict) list \<Rightarrow> trace list \<Rightarrow> string list" where
  "debate_errors ((j, resp) # rs) (D # Ds) =
     map (error_line (''debate-r'' @ dec_int j)) (filter failed D) @ debate_errors rs Ds"
| "debate_errors rs Ds = []"

text \<open>The report inside the result of a run, if it returned one.\<close>

definition report_of :: "exn + (ToolResult \<times> trace) \<Rightarrow> report option" where
  "report_of r = (case r of
                    Inr (res, tr) \<Rightarrow> (case content res of [ReportText rep] \<Rightarrow> Some rep | _ \<Rightarrow> None)
                  | Inl x \<Rightarrow> None)"


subsection \<open>Example inputs\<close>

text \<open>A network that answers the address of participant B with status 500 and every other
  request with a chat completion; three participants A, B, C; one debate round.\<close>

definition sample_env :: env where
  "sample_env =
     \<lparr>post = (\<lambda>h rq. Responded
                \<lparr>status = (if req_url rq = ''http://b.example/v1'' then 500 else 200),
                 parsed = JObj [(''choices'',
                                 JArr [JObj [(''message'', JObj [(''content'', JStr '' ok '')])]])],
                 raw = ''boom''\<rparr>),
      stringify = (\<lambda>v. ''{}''),
      other_num = (\<lambda>s. NaN)\<rparr>"

definition sample_participants :: json where
  "sample_participants =
     JArr [JObj [(''id'', JStr ''A''), (''provider'', JStr ''custom''), (''model'', JStr ''m1''),
                 (''api_url'', JStr ''http://a.example/v1'')],
           JObj [(''id'', JStr ''B''), (''provider'', JStr ''custom''), (''model'', JStr ''m2''),
                 (''api_url'', JStr ''http://b.example/v1'')],
           JObj [(''id'', JStr ''C''), (''provider'', JStr ''custom''), (''model'', JStr ''m3''),
                 (''api_url'', JStr ''http://c.example/v1'')]]"


text \<open>The same call asking for no debate round.\<close>

definition zero_rounds_args :: json where
  "zero_rounds_args =
     JObj [(''requirement'', JStr ''design a cache''), (''participants'', sample_participants),
           (''debate_rounds'', JNum 0)]"

text \<open>A participants list in which only the second entry is valid, and one with no valid
  entry.\<close>

definition mixed_args :: json where
  "mixed_args =
     JObj [(''requirement'', JStr ''design a cache''),
           (''participants'',
            JArr [JNum 3,
                  JObj [(''provider'', JStr ''Custom''), (''model'', JStr '' m1 ''),
                        (''api_url'', JStr ''http://a.example/v1'')],
                  JObj [(''id'', JStr ''X''), (''model'', JStr ''m2'')],
                  JStr ''gpt''])]"

definition none_valid_args :: json where
  "none_valid_args =
     JObj [(''requirement'', JStr ''design a cache''),
           (''participants'', JArr [JNum 3, JObj [(''id'', JStr ''X''), (''model'', JStr ''m2'')]])]"

text \<open>The commands started by a tool call that returned.\<close>

definition trace_of_runner :: "runner_exn + (ToolResult \<times> spawn_request list) \<Rightarrow> spawn_request list" where
  "trace_of_runner r = (case r of Inr (res, started) \<Rightarrow> started | Inl x \<Rightarrow> [])"

text \<open>A bridge whose command prints one line and exits with code 0.\<close>

definition sample_runner :: runner_env where
  "sample_runner =
     \<lparr>process_cwd = ''/home/u'',
      file_at = (\<lambda>p. Missing),
      spawn = (\<lambda>started rq. Runs [StdoutData ''done'', Close (Some 0)]),
      number_of = (\<lambda>s. NaN)\<rparr>"





text \<open>A participants entry whose provider is the number 5 and whose model is \<^verbatim>\<open>true\<close>; and a
  list whose second entry has an object holding a property \<^verbatim>\<open>toString\<close> as its model.\<close>

definition coerced_args :: json where
  "coerced_args =
     JObj [(''requirement'', JStr ''design a cache''),
           (''participants'', JArr [JObj [(''provider'', JNum 5), (''model'', JBool True)]])]"

definition unconvertible_model_args :: json where
  "unconvertible_model_args =
     JObj [(''requirement'', JStr ''design a cache''),
           (''participants'',
            JArr [JObj [(''id'', JStr ''A''), (''provider'', JStr ''custom''), (''model'', JStr ''m1''),
                        (''api_url'', JStr ''http://a.example/v1'')],
                  JObj [(''model'', JObj [(''toString'', JNum 1)])]])]"




section \<open>Properties of the conversions\<close>

subsection \<open>Conversions raise nothing but a TypeError\<close>

lemma collect_raises: "collect rs = Inl x \<Longrightarrow> Inl x \<in> set rs"
  by (induction rs) (auto split: sum.splits)

lemma js_String_raises: "js_String v = Inl x \<Longrightarrow> x = TypeError"
proof (induction v rule: js_String.induct)
  case (5 xs)
  from "5.prems" have "collect (map (\<lambda>x. if x = JNull then Inr [] else js_String x) xs) = Inl x"
    by (simp split: sum.splits)
  from collect_raises [OF this] obtain y where "y \<in> set xs" "y \<noteq> JNull" "js_String y = Inl x"
    by (auto split: if_splits)
  with "5.IH" show ?case by blast
qed (auto split: option.splits)



lemma toModelSpec_raises: "toModelSpec input fb = Inl x \<Longrightarrow> x = TypeError"
  by (auto simp: toModelSpec_def split: option.splits if_splits sum.splits dest: js_String_raises)


subsection \<open>Decimal numerals\<close>

lemma digit_cases:
  "d < 10 \<Longrightarrow> d = 0 \<or> d = 1 \<or> d = 2 \<or> d = 3 \<or> d = 4 \<or> d = 5 \<or> d = 6 \<or> d = 7 \<or> d = 8 \<or> d = (9::nat)"
  by arith

lemma digit_char_props:
  assumes "d < 10"
  shows "is_digit (digit_char d)" "digit_val (digit_char d) = int d"
  using digit_cases [OF assms] by (auto simp: is_digit_def digit_char_def digit_val_def)

lemma is_digit_props:
  assumes "is_digit c"
  shows "(of_char c :: nat) < 128" "c \<noteq> CR" "c \<noteq> LF" "\<not> is_space c" "c \<noteq> CHR '':''"
  using assms by (auto simp: is_digit_def CR_def LF_def is_space_def)

lemma digits_val_snoc: "digits_val (xs @ [c]) = 10 * digits_val xs + digit_val c"
  by (simp add: digits_val_def)

lemma dec_props: "list_all is_digit (dec n) \<and> dec n \<noteq> [] \<and> digits_val (dec n) = int n"
proof (induction n rule: dec.induct)
  case (1 n)
  show ?case
  proof (cases "n < 10")
    case True
    then show ?thesis
      by (subst (1 2 3) dec.simps) (simp add: digit_char_props digits_val_def)
  next
    case False
    have m: "n mod 10 < 10" by simp
    have "int n = int (10 * (n div 10) + n mod 10)" by simp
    also have "\<dots> = 10 * int (n div 10) + int (n mod 10)"
      by (simp only: of_nat_add of_nat_mult of_nat_numeral)
    finally have ar: "10 * int (n div 10) + int (n mod 10) = int n" by simp
    from "1.IH" [OF False] digit_char_props [OF m] False ar show ?thesis
      by (subst (1 2 3) dec.simps) (simp add: digits_val_snoc)
  qed
qed





section \<open>Properties of the model gateway\<close>

text \<open>Claim C6. The gateway returns code 2 with a diagnostic text, without sending a request,
  when a provider precondition is unmet: \<^verbatim>\<open>openai\<close> with an empty \<^verbatim>\<open>api_key\<close>, \<^verbatim>\<open>gemini\<close> with
  neither \<^verbatim>\<open>api_key\<close> nor \<^verbatim>\<open>api_url\<close>, \<^verbatim>\<open>custom\<close> with no \<^verbatim>\<open>api_url\<close>. The trace gains one entry
  whose request is \<open>None\<close>, and the result does not depend on the network.\<close>

theorem callModel_precondition:
  "(provider spec = ''openai'' \<longrightarrow> api_key spec = [] \<longrightarrow>
      callModel e spec prompt tr =
        (let r = \<lparr>call_code = 2, call_text = ''['' @ spec_id spec @ ''] missing api_key for openai.''\<rparr>
         in Inr (r, tr @ [\<lparr>gc_spec = spec, gc_prompt = prompt, gc_request = None, gc_result = r\<rparr>])))
   \<and> (provider spec = ''gemini'' \<longrightarrow> api_key spec = [] \<longrightarrow> api_url spec = [] \<longrightarrow>
      callModel e spec prompt tr =
        (let r = \<lparr>call_code = 2, call_text = ''['' @ spec_id spec @ ''] missing api_key for gemini.''\<rparr>
         in Inr (r, tr @ [\<lparr>gc_spec = spec, gc_prompt = prompt, gc_request = None, gc_result = r\<rparr>])))
   \<and> (provider spec = ''custom'' \<longrightarrow> api_url spec = [] \<longrightarrow>
      callModel e spec prompt tr =
        (let r = \<lparr>call_code = 2, call_text = ''['' @ spec_id spec @ ''] missing api_url for custom provider.''\<rparr>
         in Inr (r, tr @ [\<lparr>gc_spec = spec, gc_prompt = prompt, gc_request = None, gc_result = r\<rparr>])))"
  by (simp add: callModel_def buildRequest_def Let_def)

theorem callModel_precondition_witness:
  "callModel \<lparr>post = (\<lambda>h r. Raised), stringify = (\<lambda>v. []), other_num = (\<lambda>s. NaN)\<rparr>
     \<lparr>spec_id = ''g'', provider = ''gemini'', model = ''gemini-pro'', api_url = [], api_key = [],
      system_prompt = []\<rparr> (UserPrompt ''hi'') [] =
   Inr (\<lparr>call_code = 2, call_text = ''[g] missing api_key for gemini.''\<rparr>,
        [\<lparr>gc_spec = \<lparr>spec_id = ''g'', provider = ''gemini'', model = ''gemini-pro'', api_url = [],
                     api_key = [], system_prompt = []\<rparr>,
          gc_prompt = UserPrompt ''hi'', gc_request = None,
          gc_result = \<lparr>call_code = 2, call_text = ''[g] missing api_key for gemini.''\<rparr>\<rparr>])"
  using callModel_precondition [where spec = "\<lparr>spec_id = ''g'', provider = ''gemini'', model = ''gemini-pro'',
      api_url = [], api_key = [], system_prompt = []\<rparr>"
      and e = "\<lparr>post = (\<lambda>h r. Raised), stringify = (\<lambda>v. []), other_num = (\<lambda>s. NaN)\<rparr>"
      and prompt = "UserPrompt ''hi''" and tr = "[]"]
  by (simp add: Let_def)


subsection \<open>A provider the gateway does not know\<close>








section \<open>Properties of the orchestration engine\<close>

lemma callModel_trace:
  "callModel e spec p tr = Inr (r, tr') \<Longrightarrow>
   \<exists>rq. tr' = tr @ [\<lparr>gc_spec = spec, gc_prompt = p, gc_request = rq, gc_result = r\<rparr>]"
  unfolding callModel_def Let_def
  by (auto split: if_splits sum.splits http_outcome.splits)


lemma callModel_returns:
  assumes "no_raise e"
  shows "\<exists>r tr'. callModel e spec p tr = Inr (r, tr')"
proof (cases "buildRequest spec p")
  case (Inl early)
  then show ?thesis by (simp add: callModel_def)
next
  case (Inr rq)
  from assms obtain r where
    r: "post e (requests_sent tr) rq = Responded r"
       "400 \<le> status r \<or> status r = 0 \<or> (\<forall>spec. \<not> isl (extractText e spec (parsed r)))"
    unfolding no_raise_def by blast
  show ?thesis
  proof (cases "400 \<le> status r \<or> status r = 0")
    case True
    then show ?thesis using Inr r by (simp add: callModel_def)
  next
    case False
    with r have "\<not> isl (extractText e spec (parsed r))" by simp
    then obtain t where "extractText e spec (parsed r) = Inr t"
      by (cases "extractText e spec (parsed r)") auto
    then show ?thesis using Inr r False by (simp add: callModel_def)
  qed
qed


lemma proposalStage_trace:
  "proposalStage e req ps (props, errs, tr) = Inr (props', errs', tr') \<Longrightarrow>
   \<exists>new. tr' = tr @ new \<and> map gc_spec new = ps \<and> (\<forall>c\<in>set new. gc_prompt c = ProposalPrompt req)
     \<and> errs' = errs @ map (error_line ''proposal'') (filter failed new)
     \<and> props' = foldl record_entry props new"
proof (induction ps arbitrary: props errs tr)
  case Nil
  then show ?case by simp
next
  case (Cons m ms)
  from Cons.prems obtain call tr1 where
    c: "callModel e m (ProposalPrompt req) tr = Inr (call, tr1)"
    by (cases "callModel e m (ProposalPrompt req) tr") auto
  from callModel_trace [OF c] obtain rq where
    tr1: "tr1 = tr @ [\<lparr>gc_spec = m, gc_prompt = ProposalPrompt req, gc_request = rq, gc_result = call\<rparr>]"
    ..
  define c0 where "c0 = \<lparr>gc_spec = m, gc_prompt = ProposalPrompt req, gc_request = rq, gc_result = call\<rparr>"
  have step: "proposalStage e req ms (record_entry props c0,
                 errs @ map (error_line ''proposal'') (filter failed [c0]), tr1) = Inr (props', errs', tr')"
    using Cons.prems c
    by (simp add: c0_def record_entry_def entry_text_def failed_def error_line_def split: if_splits)
  from Cons.IH [OF step] obtain new where
    new: "tr' = tr1 @ new \<and> map gc_spec new = ms \<and> (\<forall>c\<in>set new. gc_prompt c = ProposalPrompt req)
      \<and> errs' = (errs @ map (error_line ''proposal'') (filter failed [c0])) @ map (error_line ''proposal'') (filter failed new)
      \<and> props' = foldl record_entry (record_entry props c0) new"
    ..
  have "tr' = tr @ (c0 # new)" using new tr1 by (simp add: c0_def)
  moreover have "map gc_spec (c0 # new) = m # ms" using new by (simp add: c0_def)
  moreover have "\<forall>c\<in>set (c0 # new). gc_prompt c = ProposalPrompt req" using new by (simp add: c0_def)
  moreover have "errs' = errs @ map (error_line ''proposal'') (filter failed (c0 # new))"
    using new by simp
  moreover have "props' = foldl record_entry props (c0 # new)" using new by simp
  ultimately show ?case by (intro exI [of _ "c0 # new"] conjI)
qed


lemma debateRound_trace:
  "debateRound e req i pool ps (resp, errs, tr) = Inr (resp', errs', tr') \<Longrightarrow>
   \<exists>new. tr' = tr @ new \<and> map gc_spec new = ps
     \<and> (\<forall>c\<in>set new. gc_prompt c = CritiquePrompt req (others_of pool (spec_id (gc_spec c))))
     \<and> errs' = errs @ map (error_line (''debate-r'' @ dec_int i)) (filter failed new)
     \<and> resp' = foldl record_entry resp new"
proof (induction ps arbitrary: resp errs tr)
  case Nil
  then show ?case by simp
next
  case (Cons m ms)
  define pr where "pr = CritiquePrompt req (others_of pool (spec_id m))"
  from Cons.prems obtain call tr1 where
    c: "callModel e m pr tr = Inr (call, tr1)"
    unfolding pr_def
    by (cases "callModel e m (CritiquePrompt req (others_of pool (spec_id m))) tr") auto
  from callModel_trace [OF c] obtain rq where
    tr1: "tr1 = tr @ [\<lparr>gc_spec = m, gc_prompt = pr, gc_request = rq, gc_result = call\<rparr>]"
    ..
  define c0 where "c0 = \<lparr>gc_spec = m, gc_prompt = pr, gc_request = rq, gc_result = call\<rparr>"
  have step: "debateRound e req i pool ms (record_entry resp c0,
                 errs @ map (error_line (''debate-r'' @ dec_int i)) (filter failed [c0]), tr1) = Inr (resp', errs', tr')"
    using Cons.prems c [unfolded pr_def]
    by (simp add: c0_def record_entry_def entry_text_def failed_def error_line_def split: if_splits)
  from Cons.IH [OF step] obtain new where
    new: "tr' = tr1 @ new \<and> map gc_spec new = ms
      \<and> (\<forall>c\<in>set new. gc_prompt c = CritiquePrompt req (others_of pool (spec_id (gc_spec c))))
      \<and> errs' = (errs @ map (error_line (''debate-r'' @ dec_int i)) (filter failed [c0])) @ map (error_line (''debate-r'' @ dec_int i)) (filter failed new)
      \<and> resp' = foldl record_entry (record_entry resp c0) new"
    ..
  have "tr' = tr @ (c0 # new)" using new tr1 by (simp add: c0_def)
  moreover have "map gc_spec (c0 # new) = m # ms" using new by (simp add: c0_def)
  moreover have "\<forall>c\<in>set (c0 # new). gc_prompt c = CritiquePrompt req (others_of pool (spec_id (gc_spec c)))"
    using new by (simp add: c0_def pr_def)
  moreover have "errs' = errs @ map (error_line (''debate-r'' @ dec_int i)) (filter failed (c0 # new))"
    using new by simp
  moreover have "resp' = foldl record_entry resp (c0 # new)" using new by simp
  ultimately show ?case by (intro exI [of _ "c0 # new"] conjI)
qed

lemma proposalStage_returns:
  assumes "no_raise e"
  shows "\<exists>st'. proposalStage e req ps st = Inr st'"
proof (induction ps arbitrary: st)
  case Nil
  show ?case by (rule exI [of _ st]) simp
next
  case (Cons m ms)
  show ?case
  proof (cases st rule: prod_cases3)
    case (fields props errs tr)
    from callModel_returns [OF assms] obtain r tr1 where
      call: "callModel e m (ProposalPrompt req) tr = Inr (r, tr1)" by blast
    show ?thesis
    proof (cases "call_code r = 0")
      case True
      from Cons.IH obtain st' where
        "proposalStage e req ms (js_set props (spec_id m) (trim (call_text r)), errs, tr1) = Inr st'"
        by blast
      then show ?thesis using fields call True by (simp del: split_paired_Ex)
    next
      case False
      from Cons.IH obtain st' where
        "proposalStage e req ms
           (js_set props (spec_id m) (''(failed) '' @ call_text r),
            errs @ [''[proposal:'' @ spec_id m @ ''] code='' @ dec (call_code r)], tr1) = Inr st'"
        by blast
      then show ?thesis using fields call False by (simp del: split_paired_Ex)
    qed
  qed
qed

lemma debateRound_returns:
  assumes "no_raise e"
  shows "\<exists>st'. debateRound e req i pool ps st = Inr st'"
proof (induction ps arbitrary: st)
  case Nil
  show ?case by (rule exI [of _ st]) simp
next
  case (Cons m ms)
  show ?case
  proof (cases st rule: prod_cases3)
    case (fields props errs tr)
    from callModel_returns [OF assms] obtain r tr1 where
      call: "callModel e m (CritiquePrompt req (others_of pool (spec_id m))) tr = Inr (r, tr1)"
      by blast
    show ?thesis
    proof (cases "call_code r = 0")
      case True
      from Cons.IH obtain st' where
        "debateRound e req i pool ms (js_set props (spec_id m) (trim (call_text r)), errs, tr1) = Inr st'"
        by blast
      then show ?thesis using fields call True by (simp del: split_paired_Ex)
    next
      case False
      from Cons.IH obtain st' where
        "debateRound e req i pool ms
           (js_set props (spec_id m) (''(failed) '' @ call_text r),
            errs @ [''[debate-r'' @ dec_int i @ '':'' @ spec_id m @ ''] code='' @ dec (call_code r)],
            tr1) = Inr st'"
        by blast
      then show ?thesis using fields call False by (simp del: split_paired_Ex)
    qed
  qed
qed

lemma debateLoop_trace:
  "debateLoop e req ps R i (rounds, pool, errs, tr) = Inr (rounds', pool', errs', tr') \<Longrightarrow>
   \<exists>rs Ds. rounds' = rounds @ rs \<and> tr' = tr @ concat Ds \<and> round_chain req ps i pool rs Ds
      \<and> length rs = (case R of NaN \<Rightarrow> 0 | Num r \<Rightarrow> nat (r + 1 - i))
      \<and> errs' = errs @ debate_errors rs Ds"
proof (induction e req ps R i "(rounds, pool, errs, tr)" arbitrary: rounds pool errs tr rule: debateLoop.induct)
  case (1 e req ps R i rounds pool errs tr)
  show ?case
  proof (cases "js_le i R")
    case False
    with "1.prems" have eq: "rounds' = rounds" "tr' = tr" "errs' = errs"
      by (simp_all add: debateLoop.simps)
    from False have len: "(case R of NaN \<Rightarrow> 0 | Num r \<Rightarrow> nat (r + 1 - i)) = 0"
      by (cases R) auto
    show ?thesis
      by (rule exI [of _ "[]"], rule exI [of _ "[]"]) (simp add: eq len)
  next
    case True
    from "1.prems" True obtain resp errs1 tr1 where
      rd: "debateRound e req i pool ps ([], errs, tr) = Inr (resp, errs1, tr1)"
      by (cases "debateRound e req i pool ps ([], errs, tr)") (auto simp: debateLoop.simps)
    from rd "1.prems" True have
      rest: "debateLoop e req ps R (i + 1) (rounds @ [(i, resp)], resp, errs1, tr1) = Inr (rounds', pool', errs', tr')"
      by (simp add: debateLoop.simps)
    from debateRound_trace [OF rd] obtain D where
      D: "tr1 = tr @ D \<and> map gc_spec D = ps
          \<and> (\<forall>c\<in>set D. gc_prompt c = CritiquePrompt req (others_of pool (spec_id (gc_spec c))))
          \<and> errs1 = errs @ map (error_line (''debate-r'' @ dec_int i)) (filter failed D)
          \<and> resp = foldl record_entry [] D"
      ..
    from "1.hyps" [OF True rd refl refl rest] obtain rs Ds where
      ih: "rounds' = (rounds @ [(i, resp)]) @ rs \<and> tr' = tr1 @ concat Ds
           \<and> round_chain req ps (i + 1) resp rs Ds
           \<and> length rs = (case R of NaN \<Rightarrow> 0 | Num r \<Rightarrow> nat (r + 1 - (i + 1)))
           \<and> errs' = errs1 @ debate_errors rs Ds"
      by blast
    from True have len: "(case R of NaN \<Rightarrow> 0 | Num r \<Rightarrow> nat (r + 1 - i))
                     = Suc (case R of NaN \<Rightarrow> 0 | Num r \<Rightarrow> nat (r + 1 - (i + 1)))"
      by (cases R) auto
    have "rounds' = rounds @ ((i, resp) # rs)" using ih by simp
    moreover have "tr' = tr @ concat (D # Ds)" using ih D by simp
    moreover have "round_chain req ps i pool ((i, resp) # rs) (D # Ds)" using ih D by simp
    moreover have "length ((i, resp) # rs) = (case R of NaN \<Rightarrow> 0 | Num r \<Rightarrow> nat (r + 1 - i))"
      using ih len by simp
    moreover have "errs' = errs @ debate_errors ((i, resp) # rs) (D # Ds)" using ih D by simp
    ultimately show ?thesis
      by (intro exI [of _ "(i, resp) # rs"] exI [of _ "D # Ds"] conjI)
  qed
qed

lemma debateLoop_returns:
  "no_raise e \<Longrightarrow> \<exists>st'. debateLoop e req ps R i st = Inr st'"
proof (induction e req ps R i st rule: debateLoop.induct)
  case (1 e req ps R i rounds pool errs tr)
  show ?case
  proof (cases "js_le i R")
    case False
    then show ?thesis by (simp add: debateLoop.simps del: split_paired_Ex)
  next
    case True
    from debateRound_returns [OF "1.prems"] obtain st1 where
      "debateRound e req i pool ps ([], errs, tr) = Inr st1" by blast
    then obtain resp errs1 tr1 where
      rd: "debateRound e req i pool ps ([], errs, tr) = Inr (resp, errs1, tr1)"
      by (cases st1 rule: prod_cases3) simp
    from "1.IH" [OF True rd refl refl "1.prems"] obtain st' where
      "debateLoop e req ps R (i + 1) (rounds @ [(i, resp)], resp, errs1, tr1) = Inr st'"
      by blast
    then show ?thesis using True rd by (simp add: debateLoop.simps del: split_paired_Ex)
  qed
qed


subsection \<open>Reading the arguments\<close>

lemma default_never_raises:
  "isl (js_String (js_or x (JStr d))) = isl (js_String (js_or x (JStr d')))"
  by (cases x) auto

lemma runBrainstorm_run:
  assumes req: "requirement_of a \<noteq> []" and ps: "participants_of a = first # rest"
      and opt: "options_read e a"
  shows "runBrainstorm e a tr =
           runStages e (requirement_of a) first rest (debateRounds_of e a)
             (synthesisBy_of a (first # rest)) tr"
proof -
  from req obtain rt where
    rt: "js_String (js_or (get a ''requirement'') (JStr [])) = Inr rt" "trim rt \<noteq> []"
    unfolding requirement_of_def by (auto split: sum.splits)
  from ps have
    cp: "collectParticipants 0 (case get a ''participants'' of Some (JArr xs) \<Rightarrow> xs | _ \<Rightarrow> [])
           = Inr (first # rest)"
    unfolding participants_of_def rawParticipants_of_def by (auto split: sum.splits)
  from opt have "\<not> isl (js_String (js_or (get a ''synthesis_by'') (JStr [])))"
    by (simp add: options_read_def)
  then have "\<not> isl (js_String (js_or (get a ''synthesis_by'') (JStr (spec_id first))))"
    using default_never_raises by blast
  then obtain sb where
    sb: "js_String (js_or (get a ''synthesis_by'') (JStr (spec_id first))) = Inr sb"
    by (cases "js_String (js_or (get a ''synthesis_by'') (JStr (spec_id first)))") auto
  from opt obtain r t1 t2 t3 where
    l: "js_Number (other_num e) (js_or (get a ''debate_rounds'') (JNum 1)) = Inr r"
       "js_Number (other_num e) (js_or (get a ''timeout_sec'') (JNum 180)) = Inr t1"
       "temperature_arg (other_num e) (get a ''temperature'') = Inr t2"
       "js_Number (other_num e) (js_or (get a ''max_tokens'') (JNum 2048)) = Inr t3"
    unfolding options_read_def limits_read_def
    by (metis sum.collapse(2))
  show ?thesis
    unfolding runBrainstorm_def
    by (simp add: rt cp sb l requirement_of_def debateRounds_of_def synthesisBy_of_def)
qed

lemma runBrainstorm_returned:
  assumes run: "runBrainstorm e a tr = Inr (res, tr')"
      and req: "requirement_of a \<noteq> []" and ps: "participants_of a \<noteq> []"
  shows "options_read e a"
proof -
  from req obtain rt where
    rt: "js_String (js_or (get a ''requirement'') (JStr [])) = Inr rt" "trim rt \<noteq> []"
    unfolding requirement_of_def by (auto split: sum.splits)
  from ps obtain first rest where fr: "participants_of a = first # rest"
    by (cases "participants_of a") auto
  then have
    cp: "collectParticipants 0 (case get a ''participants'' of Some (JArr xs) \<Rightarrow> xs | _ \<Rightarrow> [])
           = Inr (first # rest)"
    unfolding participants_of_def rawParticipants_of_def by (auto split: sum.splits)
  from run have
    "\<not> isl (js_Number (other_num e) (js_or (get a ''debate_rounds'') (JNum 1)))
     \<and> \<not> isl (js_String (js_or (get a ''synthesis_by'') (JStr (spec_id first))))
     \<and> limits_read e a"
    unfolding runBrainstorm_def limits_read_def
    by (simp add: rt cp split: sum.splits)
  then show ?thesis
    unfolding options_read_def using default_never_raises by blast
qed


lemma runBrainstorm_stages:
  assumes run: "runBrainstorm e a tr = Inr (res, tr')"
      and req: "requirement_of a \<noteq> []" and ps: "participants_of a \<noteq> []"
  shows "\<exists>props errs1 tr1 rounds latest errs2 tr2 synth.
           proposalStage e (requirement_of a) (participants_of a) ([], [], tr) = Inr (props, errs1, tr1)
         \<and> debateLoop e (requirement_of a) (participants_of a) (debateRounds_of e a) 1
               ([], props, errs1, tr1) = Inr (rounds, latest, errs2, tr2)
         \<and> callModel e (synthModel_of a (participants_of a))
               (SynthesisPrompt (requirement_of a) props rounds) tr2 = Inr (synth, tr')
         \<and> res = \<lparr>content =
                     [ReportText
                        \<lparr>requirement = requirement_of a,
                         participants = map spec_id (participants_of a),
                         debate_rounds = debateRounds_of e a,
                         synthesis_by = spec_id (synthModel_of a (participants_of a)),
                         proposals = props,
                         debates = rounds,
                         synthesis = call_text synth,
                         errors = errs2 @ (if call_code synth \<noteq> 0
                                           then [''[synthesis:'' @ spec_id (synthModel_of a (participants_of a))
                                                 @ ''] code='' @ dec (call_code synth)]
                                           else [])\<rparr>],
                   isError = (errs2 @ (if call_code synth \<noteq> 0
                                           then [''[synthesis:'' @ spec_id (synthModel_of a (participants_of a))
                                                 @ ''] code='' @ dec (call_code synth)]
                                           else []) \<noteq> [])\<rparr>"
proof -
  from ps obtain first rest where fr: "participants_of a = first # rest"
    by (cases "participants_of a") auto
  have sm: "synthModel_of a (first # rest) =
       (case find (\<lambda>m. spec_id m = synthesisBy_of a (first # rest)) (first # rest) of
          Some m \<Rightarrow> m | None \<Rightarrow> first)"
    by (simp add: synthModel_of_def split: option.splits)
  from runBrainstorm_run [OF req fr runBrainstorm_returned [OF run req ps], of tr] run
  have st: "runStages e (requirement_of a) first rest (debateRounds_of e a)
              (synthesisBy_of a (first # rest)) tr = Inr (res, tr')"
    by simp
  show ?thesis
    using st
    unfolding runStages_def Let_def fr sm
    apply (simp del: proposalStage.simps split: sum.splits prod.splits)
    apply (auto simp del: proposalStage.simps)
    done
qed


lemma runBrainstorm_report:
  assumes run: "runBrainstorm e a tr = Inr (res, tr')"
      and req: "requirement_of a \<noteq> []" and ps: "participants_of a \<noteq> []"
  shows "\<exists>rep P Ds S.
      res = \<lparr>content = [ReportText rep], isError = (errors rep \<noteq> [])\<rparr>
    \<and> tr' = tr @ P @ concat Ds @ [S]
    \<and> requirement rep = requirement_of a
    \<and> participants rep = map spec_id (participants_of a)
    \<and> debate_rounds rep = debateRounds_of e a
    \<and> synthesis_by rep = spec_id (synthModel_of a (participants_of a))
    \<and> map gc_spec P = participants_of a
    \<and> (\<forall>c\<in>set P. gc_prompt c = ProposalPrompt (requirement_of a))
    \<and> proposals rep = foldl record_entry [] P
    \<and> round_chain (requirement_of a) (participants_of a) 1 (proposals rep) (debates rep) Ds
    \<and> length (debates rep) = rounds_run (debateRounds_of e a)
    \<and> gc_spec S = synthModel_of a (participants_of a)
    \<and> gc_prompt S = SynthesisPrompt (requirement_of a) (proposals rep) (debates rep)
    \<and> synthesis rep = call_text (gc_result S)
    \<and> errors rep = map (error_line ''proposal'') (filter failed P) @ debate_errors (debates rep) Ds
                    @ map (error_line ''synthesis'') (filter failed [S])"
proof -
  define rq where "rq = requirement_of a"
  define pts where "pts = participants_of a"
  define sm where "sm = synthModel_of a pts"
  from runBrainstorm_stages [OF run req ps] obtain props errs1 tr1 rounds latest errs2 tr2 synth where
    st: "proposalStage e rq pts ([], [], tr) = Inr (props, errs1, tr1)"
    and dl: "debateLoop e rq pts (debateRounds_of e a) 1 ([], props, errs1, tr1) = Inr (rounds, latest, errs2, tr2)"
    and cm: "callModel e sm (SynthesisPrompt rq props rounds) tr2 = Inr (synth, tr')"
    and res: "res = \<lparr>content =
                     [ReportText
                        \<lparr>requirement = rq,
                         participants = map spec_id pts,
                         debate_rounds = debateRounds_of e a,
                         synthesis_by = spec_id sm,
                         proposals = props,
                         debates = rounds,
                         synthesis = call_text synth,
                         errors = errs2 @ (if call_code synth \<noteq> 0
                                           then [''[synthesis:'' @ spec_id sm
                                                 @ ''] code='' @ dec (call_code synth)]
                                           else [])\<rparr>],
                   isError = (errs2 @ (if call_code synth \<noteq> 0
                                           then [''[synthesis:'' @ spec_id sm
                                                 @ ''] code='' @ dec (call_code synth)]
                                           else []) \<noteq> [])\<rparr>"
    unfolding rq_def pts_def sm_def by blast
  from proposalStage_trace [OF st] obtain P where
    P: "tr1 = tr @ P \<and> map gc_spec P = pts \<and> (\<forall>c\<in>set P. gc_prompt c = ProposalPrompt rq)
        \<and> errs1 = [] @ map (error_line ''proposal'') (filter failed P)
        \<and> props = foldl record_entry [] P"
    ..
  from debateLoop_trace [OF dl] obtain rs Ds where
    D: "rounds = [] @ rs \<and> tr2 = tr1 @ concat Ds \<and> round_chain rq pts 1 props rs Ds
        \<and> length rs = (case debateRounds_of e a of NaN \<Rightarrow> 0 | Num r \<Rightarrow> nat (r + 1 - 1))
        \<and> errs2 = errs1 @ debate_errors rs Ds"
    by blast
  from callModel_trace [OF cm] obtain q where
    S: "tr' = tr2 @ [\<lparr>gc_spec = sm, gc_prompt = SynthesisPrompt rq props rounds, gc_request = q,
                       gc_result = synth\<rparr>]"
    ..
  define S0 where "S0 = \<lparr>gc_spec = sm, gc_prompt = SynthesisPrompt rq props rounds, gc_request = q,
                       gc_result = synth\<rparr>"
  define rep where "rep = \<lparr>requirement = rq,
                         participants = map spec_id pts,
                         debate_rounds = debateRounds_of e a,
                         synthesis_by = spec_id sm,
                         proposals = props,
                         debates = rounds,
                         synthesis = call_text synth,
                         errors = errs2 @ (if call_code synth \<noteq> 0
                                           then [''[synthesis:'' @ spec_id sm
                                                 @ ''] code='' @ dec (call_code synth)]
                                           else [])\<rparr>"
  have len: "length rounds = rounds_run (debateRounds_of e a)"
    using D by (cases "debateRounds_of e a") simp_all
  have errs: "errors rep = map (error_line ''proposal'') (filter failed P) @ debate_errors (debates rep) Ds
                    @ map (error_line ''synthesis'') (filter failed [S0])"
    using P D by (simp add: rep_def S0_def failed_def error_line_def)
  have "res = \<lparr>content = [ReportText rep], isError = (errors rep \<noteq> [])\<rparr>"
    using res by (simp add: rep_def)
  moreover have "tr' = tr @ P @ concat Ds @ [S0]" using S P D by (simp add: S0_def)
  moreover have "requirement rep = requirement_of a" by (simp add: rep_def rq_def)
  moreover have "participants rep = map spec_id (participants_of a)" by (simp add: rep_def pts_def)
  moreover have "debate_rounds rep = debateRounds_of e a" by (simp add: rep_def)
  moreover have "synthesis_by rep = spec_id (synthModel_of a (participants_of a))"
    by (simp add: rep_def sm_def pts_def)
  moreover have "map gc_spec P = participants_of a" using P by (simp add: pts_def)
  moreover have "\<forall>c\<in>set P. gc_prompt c = ProposalPrompt (requirement_of a)"
    using P by (simp add: rq_def)
  moreover have "proposals rep = foldl record_entry [] P" using P by (simp add: rep_def)
  moreover have "round_chain (requirement_of a) (participants_of a) 1 (proposals rep) (debates rep) Ds"
    using D by (simp add: rep_def rq_def pts_def)
  moreover have "length (debates rep) = rounds_run (debateRounds_of e a)"
    using len by (simp add: rep_def)
  moreover have "gc_spec S0 = synthModel_of a (participants_of a)"
    by (simp add: S0_def sm_def pts_def)
  moreover have "gc_prompt S0 = SynthesisPrompt (requirement_of a) (proposals rep) (debates rep)"
    by (simp add: S0_def rep_def rq_def)
  moreover have "synthesis rep = call_text (gc_result S0)" by (simp add: S0_def rep_def)
  moreover note errs
  ultimately show ?thesis
    by (intro exI [of _ rep] exI [of _ P] exI [of _ Ds] exI [of _ S0] conjI)
qed


lemma runBrainstorm_returns:
  assumes nr: "no_raise e"
      and req: "requirement_of a \<noteq> []" and ps: "participants_of a \<noteq> []"
      and opt: "options_read e a"
  shows "\<exists>res tr'. runBrainstorm e a tr = Inr (res, tr')"
proof -
  from ps obtain first rest where fr: "participants_of a = first # rest"
    by (cases "participants_of a") auto
  from proposalStage_returns [OF nr] obtain props errs1 tr1 where
    st: "proposalStage e (requirement_of a) (first # rest) ([], [], tr) = Inr (props, errs1, tr1)"
    by (metis prod_cases3)
  from debateLoop_returns [OF nr] obtain rounds latest errs2 tr2 where
    dl: "debateLoop e (requirement_of a) (first # rest) (debateRounds_of e a) 1 ([], props, errs1, tr1)
           = Inr (rounds, latest, errs2, tr2)"
    by (metis prod_cases4)
  from callModel_returns [OF nr] obtain synth tr3 where
    cm: "callModel e (case find (\<lambda>m. spec_id m = synthesisBy_of a (first # rest)) (first # rest) of
          Some m \<Rightarrow> m | None \<Rightarrow> first) (SynthesisPrompt (requirement_of a) props rounds) tr2 = Inr (synth, tr3)"
    by blast
  show ?thesis
    unfolding runBrainstorm_run [OF req fr opt] runStages_def Let_def
    using st dl cm
    by (simp del: proposalStage.simps split_paired_Ex)
qed


lemma no_raise_sample: "no_raise sample_env"
  unfolding no_raise_def sample_env_def
  by (simp add: extractText_def extractOpenAIText_def extractAnthropicText_def
        extractGeminiText_def Let_def)


subsection \<open>Dictionaries\<close>



lemma insert_key_set: "set (insert_key k v d) = insert (k, v) (set d)"
  by (induction d) auto





lemma map_of_None_keys: "map_of d k = None \<longleftrightarrow> k \<notin> fst ` set d"
  by (simp add: map_of_eq_None_iff)

lemma js_set_keys:
  "fst ` set (js_set d k v) = (if k = ''__proto__'' then fst ` set d else insert k (fst ` set d))"
  by (auto simp: js_set_def dom_update insert_key_set map_of_None_keys image_iff
        split: option.splits)




lemma js_set_order:
  "foldl (\<lambda>d (k, v). js_set d k v) [] [(''b'', ''x''), (''10'', ''y''), (''9'', ''z''), (''01'', ''w'')]
     = [(''9'', ''z''), (''10'', ''y''), (''b'', ''x''), (''01'', ''w'')]"
  by code_simp

lemma record_entries_keys:
  "fst ` set (foldl record_entry d cs) =
     fst ` set d \<union> {i. i \<in> (\<lambda>c. spec_id (gc_spec c)) ` set cs \<and> i \<noteq> ''__proto__''}"
proof (induction cs arbitrary: d)
  case Nil
  then show ?case by simp
next
  case (Cons c cs)
  show ?case
    unfolding foldl_Cons Cons.IH
    by (auto simp: record_entry_def js_set_keys)
qed








subsection \<open>Debate rounds\<close>











lemma synthModel_in_participants:
  assumes "ps \<noteq> []"
  shows "synthModel_of a ps \<in> set ps"
proof (cases "find (\<lambda>m. spec_id m = synthesisBy_of a ps) ps")
  case None
  then show ?thesis using assms by (simp add: synthModel_of_def)
next
  case (Some m)
  then have "m \<in> set ps" by (auto simp: find_Some_iff)
  then show ?thesis using Some by (simp add: synthModel_of_def)
qed









subsection \<open>Filtering the participants\<close>

lemma trim_empty_iff: "(trim s = []) = (\<forall>c\<in>set s. is_space c)"
proof (cases "dropWhile is_space s")
  case Nil
  then have "\<forall>c\<in>set s. is_space c" by (simp add: dropWhile_eq_Nil_conv)
  moreover have "trim s = []" by (simp add: trim_def Nil)
  ultimately show ?thesis by simp
next
  case (Cons c cs)
  then have nc: "\<not> is_space c" by (metis hd_dropWhile list.discI list.sel(1))
  from Cons have "c \<in> set s" by (metis list.set_intros(1) set_dropWhileD)
  with nc have r: "\<not> (\<forall>c\<in>set s. is_space c)" by blast
  have "c \<in> set (rev (dropWhile is_space s))" using Cons by simp
  with nc have ne: "dropWhile is_space (rev (dropWhile is_space s)) \<noteq> []"
    by (auto simp: dropWhile_eq_Nil_conv)
  have "trim s \<noteq> []" unfolding trim_def rev_is_Nil_conv by (rule ne)
  with r show ?thesis by blast
qed

lemma dec_int_not_blank: "dec_int n \<noteq> [] \<and> trim (dec_int n) \<noteq> []"
proof -
  define k where "k = (if n < 0 then nat (- n) else nat n)"
  from dec_props [of k] obtain c where c: "c \<in> set (dec k)" "is_digit c"
    by (cases "dec k") (auto simp: list_all_iff)
  from c(1) have "c \<in> set (dec_int n)" by (auto simp: dec_int_def k_def)
  moreover from c(2) have "\<not> is_space c" by (rule is_digit_props(4))
  ultimately show ?thesis unfolding trim_empty_iff by auto
qed

lemma toLowerCase_empty: "(toLowerCase s = []) = (s = [])"
  by (simp add: toLowerCase_def)

lemma true_not_blank: "trim ''true'' \<noteq> []"
  by (simp add: trim_empty_iff is_space_def)

lemma field_text:
  assumes "plain x"
  shows "\<exists>s. js_String (js_or x (JStr [])) = Inr s \<and> (s = []) = falsy x
             \<and> (trim s = []) = (falsy x \<or> blank x)"
proof (cases x)
  case None
  then show ?thesis by (simp add: falsy_def blank_def trim_def)
next
  case (Some v)
  with assms have "scalar v" by (simp add: plain_def)
  then show ?thesis
    using Some dec_int_not_blank true_not_blank
    by (cases v) (auto simp: falsy_def blank_def trim_def [of "[]"])
qed

lemma toModelSpec_not_object: "\<forall>kvs. item \<noteq> JObj kvs \<Longrightarrow> toModelSpec (Some item) fb = Inr None"
  by (cases item) (auto simp: toModelSpec_def toLowerCase_def)

lemma toModelSpec_drops_texts:
  "(toModelSpec (Some (JObj kvs)) fb = Inr None)
     = (\<exists>p m. js_String (js_or (get (JObj kvs) ''provider'') (JStr [])) = Inr p
            \<and> js_String (js_or (get (JObj kvs) ''model'') (JStr [])) = Inr m
            \<and> (p = [] \<or> trim m = []))"
  unfolding toModelSpec_def
  by (auto simp: toLowerCase_empty simp del: js_String.simps get.simps split: sum.splits)

lemma toModelSpec_drops_iff:
  assumes "item = JObj kvs" and "plain (get item ''provider'')" and "plain (get item ''model'')"
  shows "(toModelSpec (Some item) fb = Inr None)
           = (falsy (get item ''provider'') \<or> falsy (get item ''model'') \<or> blank (get item ''model''))"
proof -
  from field_text [OF assms(2)] obtain p where
    p: "js_String (js_or (get item ''provider'') (JStr [])) = Inr p"
       "(p = []) = falsy (get item ''provider'')"
    by blast
  from field_text [OF assms(3)] obtain m where
    m: "js_String (js_or (get item ''model'') (JStr [])) = Inr m"
       "(trim m = []) = (falsy (get item ''model'') \<or> blank (get item ''model''))"
    by blast
  have "(toModelSpec (Some item) fb = Inr None) = (toLowerCase p = [] \<or> trim m = [])"
    unfolding toModelSpec_def using assms(1) p(1) m(1)
    by (simp split: sum.splits)
  also have "\<dots> = (falsy (get item ''provider'') \<or> falsy (get item ''model'') \<or> blank (get item ''model''))"
    using p(2) m(2) by (simp add: toLowerCase_empty)
  finally show ?thesis .
qed

lemma toModelSpec_unconvertible:
  assumes "item = JObj kvs" and "plain (get item ''provider'')"
      and "get item ''model'' = Some (JObj m)" and "get (JObj m) ''toString'' \<noteq> None"
  shows "toModelSpec (Some item) fb = Inl TypeError"
proof -
  from field_text [OF assms(2)] obtain p where
    p: "js_String (js_or (get item ''provider'') (JStr [])) = Inr p"
    by blast
  from assms(4) have "js_String (JObj m) = Inl TypeError" by (auto split: option.splits)
  with assms(3) have "js_String (js_or (get item ''model'') (JStr [])) = Inl TypeError"
    by (simp del: js_String.simps)
  with assms(1) p show ?thesis
    unfolding toModelSpec_def by (simp del: js_String.simps)
qed

lemma toModelSpec_fallback_id:
  "toModelSpec (Some item) fb = Inr (Some sp) \<Longrightarrow> get item ''id'' = None \<Longrightarrow> spec_id sp = fb"
  by (auto simp: toModelSpec_def split: if_splits sum.splits)

lemma collectParticipants_map_filter:
  "collectParticipants idx items = Inr ps \<Longrightarrow>
   ps = List.map_filter
          (\<lambda>(k, item). case toModelSpec (Some item) (''model_'' @ dec (k + 1)) of
                          Inl x \<Rightarrow> None
                        | Inr r \<Rightarrow> r)
          (enumerate idx items)"
proof (induction items arbitrary: idx ps)
  case Nil
  then show ?case by (simp add: List.map_filter_simps)
next
  case (Cons item items)
  from Cons.prems obtain r rest where
    r: "toModelSpec (Some item) (''model_'' @ dec (idx + 1)) = Inr r"
    and rest: "collectParticipants (idx + 1) items = Inr rest"
    and ps: "ps = (case r of None \<Rightarrow> rest | Some sp \<Rightarrow> sp # rest)"
    by (auto split: sum.splits)
  from Cons.IH [OF rest] r ps show ?case
    by (cases r) (simp_all add: List.map_filter_simps)
qed

lemma collectParticipants_raises: "collectParticipants idx items = Inl x \<Longrightarrow> x = TypeError"
  by (induction items arbitrary: idx) (auto split: sum.splits dest: toModelSpec_raises)

lemma collectParticipants_entry_raises:
  "k < length items \<Longrightarrow> toModelSpec (Some (items ! k)) (''model_'' @ dec (idx + k + 1)) = Inl x \<Longrightarrow>
   collectParticipants idx items = Inl TypeError"
proof (induction items arbitrary: idx k)
  case Nil
  then show ?case by simp
next
  case (Cons item items)
  show ?case
  proof (cases k)
    case 0
    with Cons.prems toModelSpec_raises show ?thesis by auto
  next
    case (Suc n)
    with Cons.prems have "n < length items"
      "toModelSpec (Some (items ! n)) (''model_'' @ dec ((idx + 1) + n + 1)) = Inl x"
      by (simp_all add: add.commute add.left_commute)
    from Cons.IH [OF this] have rest: "collectParticipants (idx + 1) items = Inl TypeError" .
    show ?thesis
    proof (cases "toModelSpec (Some item) (''model_'' @ dec (idx + 1))")
      case (Inl y)
      with toModelSpec_raises [OF Inl] show ?thesis by simp
    next
      case (Inr r)
      with rest show ?thesis by simp
    qed
  qed
qed

lemma participants_read:
  "collectParticipants 0 (rawParticipants_of a) = Inr ps \<Longrightarrow> participants_of a = ps"
  by (simp add: participants_of_def)

lemma runBrainstorm_no_participants:
  assumes "requirement_of a \<noteq> []" and "collectParticipants 0 (rawParticipants_of a) = Inr []"
  shows "runBrainstorm e a tr =
           Inr (\<lparr>content = [Plain ''`participants` must include at least one valid model.''],
                 isError = True\<rparr>, tr)"
proof -
  from assms(1) obtain rt where
    rt: "js_String (js_or (get a ''requirement'') (JStr [])) = Inr rt" "trim rt \<noteq> []"
    unfolding requirement_of_def by (auto split: sum.splits)
  show ?thesis
    unfolding runBrainstorm_def using rt assms(2) [unfolded rawParticipants_of_def] by simp
qed

lemma runBrainstorm_participants_raise:
  assumes "requirement_of a \<noteq> []" and "collectParticipants 0 (rawParticipants_of a) = Inl x"
  shows "runBrainstorm e a tr = Inl TypeError"
proof -
  from assms(1) obtain rt where
    rt: "js_String (js_or (get a ''requirement'') (JStr [])) = Inr rt" "trim rt \<noteq> []"
    unfolding requirement_of_def by (auto split: sum.splits)
  from collectParticipants_raises [OF assms(2)] have "x = TypeError" .
  then show ?thesis
    unfolding runBrainstorm_def using rt assms(2) [unfolded rawParticipants_of_def] by simp
qed

lemma runBrainstorm_report_reads:
  assumes "runBrainstorm e a tr = Inr (\<lparr>content = [ReportText rep], isError = b\<rparr>, tr')"
  shows "requirement_of a \<noteq> [] \<and> participants_of a \<noteq> []"
  using assms
  unfolding runBrainstorm_def requirement_of_def participants_of_def rawParticipants_of_def
  by (auto split: sum.splits list.splits if_splits)

lemma validation_iff:
  assumes req: "requirement_of a \<noteq> []"
  shows "(runBrainstorm e a tr =
           Inr (\<lparr>content = [Plain ''`participants` must include at least one valid model.''],
                 isError = True\<rparr>, tr))
         = (collectParticipants 0 (rawParticipants_of a) = Inr [])"
proof
  assume run: "runBrainstorm e a tr =
           Inr (\<lparr>content = [Plain ''`participants` must include at least one valid model.''],
                 isError = True\<rparr>, tr)"
  show "collectParticipants 0 (rawParticipants_of a) = Inr []"
  proof (cases "collectParticipants 0 (rawParticipants_of a)")
    case (Inl x)
    from runBrainstorm_participants_raise [OF req Inl, of e tr] run show ?thesis by simp
  next
    case (Inr ps)
    show ?thesis
    proof (cases ps)
      case Nil
      with Inr show ?thesis by simp
    next
      case (Cons p ps')
      with Inr have "participants_of a \<noteq> []" by (simp add: participants_of_def)
      from runBrainstorm_report [OF run req this] obtain r where
        "\<lparr>content = [Plain ''`participants` must include at least one valid model.''],
          isError = True\<rparr> = \<lparr>content = [ReportText r], isError = (errors r \<noteq> [])\<rparr>"
        by blast
      then show ?thesis by simp
    qed
  qed
next
  assume "collectParticipants 0 (rawParticipants_of a) = Inr []"
  with req show "runBrainstorm e a tr =
           Inr (\<lparr>content = [Plain ''`participants` must include at least one valid model.''],
                 isError = True\<rparr>, tr)"
    by (rule runBrainstorm_no_participants)
qed


lemma round_chain_specs:
  "round_chain req ps i pool rs Ds \<Longrightarrow> \<forall>D\<in>set Ds. map gc_spec D = ps"
  by (induction req ps i pool rs Ds rule: round_chain.induct) auto

lemma debate_errors_lines:
  "round_chain req ps i pool rs Ds \<Longrightarrow>
   \<forall>line\<in>set (debate_errors rs Ds). \<exists>c stage. gc_spec c \<in> set ps \<and> line = error_line stage c"
proof (induction req ps i pool rs Ds rule: round_chain.induct)
  case (2 req ps i pool j resp rs D Ds)
  then have m: "map gc_spec D = ps" and ch: "round_chain req ps (i + 1) resp rs Ds" by auto
  have "\<exists>c stage. gc_spec c \<in> set ps \<and> line = error_line stage c"
    if "line \<in> set (map (error_line (''debate-r'' @ dec_int j)) (filter failed D))" for line
  proof -
    from that obtain c where c: "c \<in> set D" "line = error_line (''debate-r'' @ dec_int j) c"
      by auto
    from c(1) have "gc_spec c \<in> set (map gc_spec D)" by simp
    with m c(2) show ?thesis by auto
  qed
  moreover from "2.IH" ch have
    "\<forall>line\<in>set (debate_errors rs Ds). \<exists>c stage. gc_spec c \<in> set ps \<and> line = error_line stage c"
    using "2.prems" by auto
  ultimately show ?case by auto
qed simp_all


text \<open>Claim C9, as amended. \<open>toModelSpec\<close> drops every entry that is not an object, and it
  drops an object exactly when \<^verbatim>\<open>String(x || "")\<close> returns for its \<^verbatim>\<open>provider\<close> and its \<^verbatim>\<open>model\<close>
  and the text of the provider is empty or the text of the model is empty once trimmed. Of an
  object whose \<^verbatim>\<open>provider\<close> and \<^verbatim>\<open>model\<close> are each absent, \<^verbatim>\<open>null\<close>, a boolean, a number or a
  string, it so drops exactly those whose provider or model is absent or falsy (\<^verbatim>\<open>null\<close>,
  \<^verbatim>\<open>false\<close>, 0, the empty string) or whose model is a string of white space: a provider or
  model that is \<^verbatim>\<open>true\<close> or a nonzero number is converted to its text and the entry is kept.
  On an entry whose model is an object holding a property \<^verbatim>\<open>toString\<close> (the provider being
  absent or one of those plain values) \<open>toModelSpec\<close> raises a TypeError, and with a non-empty
  requirement an entry on which it raises makes the whole call raise. An accepted entry
  without \<^verbatim>\<open>id\<close> gets the fallback id; when no entry raises, the participants are the
  accepted entries in order, the fallback of the entry at position \<open>k\<close> (from 0) being
  \<^verbatim>\<open>model_<k+1>\<close>. With a non-empty requirement the call returns the validation error about
  \<^verbatim>\<open>participants\<close> exactly when every entry is dropped. In a report, the participants are the
  accepted entries, every key of the proposal map is the id of an accepted entry, every
  line of the error log names the id of an accepted entry, and every gateway call was made
  for an accepted entry: a dropped entry leaves no trace.\<close>

theorem invalid_participants_are_dropped:
  "((\<forall>kvs. item \<noteq> JObj kvs) \<longrightarrow> toModelSpec (Some item) fb = Inr None)
   \<and> (toModelSpec (Some (JObj kvs)) fb = Inr None)
        = (\<exists>p m. js_String (js_or (get (JObj kvs) ''provider'') (JStr [])) = Inr p
               \<and> js_String (js_or (get (JObj kvs) ''model'') (JStr [])) = Inr m
               \<and> (p = [] \<or> trim m = []))
   \<and> (item = JObj kvs \<and> plain (get item ''provider'') \<and> plain (get item ''model'') \<longrightarrow>
        (toModelSpec (Some item) fb = Inr None)
          = (falsy (get item ''provider'') \<or> falsy (get item ''model'') \<or> blank (get item ''model'')))
   \<and> (item = JObj kvs \<and> plain (get item ''provider'') \<and> get item ''model'' = Some (JObj m)
        \<and> get (JObj m) ''toString'' \<noteq> None \<longrightarrow>
        toModelSpec (Some item) fb = Inl TypeError)
   \<and> (toModelSpec (Some item) fb = Inr (Some sp) \<and> get item ''id'' = None \<longrightarrow> spec_id sp = fb)
   \<and> (collectParticipants 0 (rawParticipants_of a) = Inr ps \<longrightarrow>
        participants_of a = ps
        \<and> ps = List.map_filter
                 (\<lambda>(k, item). case toModelSpec (Some item) (''model_'' @ dec (k + 1)) of
                                 Inl x \<Rightarrow> None
                               | Inr r \<Rightarrow> r)
                 (enumerate 0 (rawParticipants_of a)))
   \<and> (requirement_of a \<noteq> [] \<longrightarrow>
        (runBrainstorm e a tr =
           Inr (\<lparr>content = [Plain ''`participants` must include at least one valid model.''],
                 isError = True\<rparr>, tr))
        = (collectParticipants 0 (rawParticipants_of a) = Inr []))
   \<and> (requirement_of a \<noteq> [] \<and> k < length (rawParticipants_of a)
        \<and> toModelSpec (Some (rawParticipants_of a ! k)) (''model_'' @ dec (k + 1)) = Inl x \<longrightarrow>
        runBrainstorm e a tr = Inl TypeError)
   \<and> (runBrainstorm e a tr = Inr (\<lparr>content = [ReportText rep], isError = b\<rparr>, tr') \<longrightarrow>
          participants rep = map spec_id (participants_of a)
        \<and> fst ` set (proposals rep) \<subseteq> spec_id ` set (participants_of a)
        \<and> (\<forall>line\<in>set (errors rep). \<exists>sp\<in>set (participants_of a). \<exists>stage n.
               line = ''['' @ stage @ '':'' @ spec_id sp @ ''] code='' @ dec n)
        \<and> (\<exists>new. tr' = tr @ new \<and> (\<forall>c\<in>set new. gc_spec c \<in> set (participants_of a))))"
proof (intro conjI)
  show "(\<forall>kvs. item \<noteq> JObj kvs) \<longrightarrow> toModelSpec (Some item) fb = Inr None"
    using toModelSpec_not_object by blast
next
  show "(toModelSpec (Some (JObj kvs)) fb = Inr None)
        = (\<exists>p m. js_String (js_or (get (JObj kvs) ''provider'') (JStr [])) = Inr p
               \<and> js_String (js_or (get (JObj kvs) ''model'') (JStr [])) = Inr m
               \<and> (p = [] \<or> trim m = []))"
    by (rule toModelSpec_drops_texts)
next
  show "item = JObj kvs \<and> plain (get item ''provider'') \<and> plain (get item ''model'') \<longrightarrow>
        (toModelSpec (Some item) fb = Inr None)
          = (falsy (get item ''provider'') \<or> falsy (get item ''model'') \<or> blank (get item ''model''))"
    using toModelSpec_drops_iff by blast
next
  show "item = JObj kvs \<and> plain (get item ''provider'') \<and> get item ''model'' = Some (JObj m)
        \<and> get (JObj m) ''toString'' \<noteq> None \<longrightarrow>
        toModelSpec (Some item) fb = Inl TypeError"
    using toModelSpec_unconvertible by blast
next
  show "toModelSpec (Some item) fb = Inr (Some sp) \<and> get item ''id'' = None \<longrightarrow> spec_id sp = fb"
    using toModelSpec_fallback_id by blast
next
  show "collectParticipants 0 (rawParticipants_of a) = Inr ps \<longrightarrow>
        participants_of a = ps
        \<and> ps = List.map_filter
                 (\<lambda>(k, item). case toModelSpec (Some item) (''model_'' @ dec (k + 1)) of
                                 Inl x \<Rightarrow> None
                               | Inr r \<Rightarrow> r)
                 (enumerate 0 (rawParticipants_of a))"
    using participants_read collectParticipants_map_filter by blast
next
  show "requirement_of a \<noteq> [] \<longrightarrow>
        (runBrainstorm e a tr =
           Inr (\<lparr>content = [Plain ''`participants` must include at least one valid model.''],
                 isError = True\<rparr>, tr))
        = (collectParticipants 0 (rawParticipants_of a) = Inr [])"
    using validation_iff by blast
next
  show "requirement_of a \<noteq> [] \<and> k < length (rawParticipants_of a)
        \<and> toModelSpec (Some (rawParticipants_of a ! k)) (''model_'' @ dec (k + 1)) = Inl x \<longrightarrow>
        runBrainstorm e a tr = Inl TypeError"
  proof
    assume h: "requirement_of a \<noteq> [] \<and> k < length (rawParticipants_of a)
        \<and> toModelSpec (Some (rawParticipants_of a ! k)) (''model_'' @ dec (k + 1)) = Inl x"
    then have "collectParticipants 0 (rawParticipants_of a) = Inl TypeError"
      using collectParticipants_entry_raises [of k "rawParticipants_of a" 0 x] by simp
    with h show "runBrainstorm e a tr = Inl TypeError"
      using runBrainstorm_participants_raise by blast
  qed
next
  show "runBrainstorm e a tr = Inr (\<lparr>content = [ReportText rep], isError = b\<rparr>, tr') \<longrightarrow>
          participants rep = map spec_id (participants_of a)
        \<and> fst ` set (proposals rep) \<subseteq> spec_id ` set (participants_of a)
        \<and> (\<forall>line\<in>set (errors rep). \<exists>sp\<in>set (participants_of a). \<exists>stage n.
               line = ''['' @ stage @ '':'' @ spec_id sp @ ''] code='' @ dec n)
        \<and> (\<exists>new. tr' = tr @ new \<and> (\<forall>c\<in>set new. gc_spec c \<in> set (participants_of a)))"
  proof
  assume run: "runBrainstorm e a tr = Inr (\<lparr>content = [ReportText rep], isError = b\<rparr>, tr')"
  from runBrainstorm_report_reads [OF run] have req: "requirement_of a \<noteq> []"
    and ps: "participants_of a \<noteq> []"
    by simp_all
  from runBrainstorm_report [OF run req ps] obtain r P Ds S where
    r: "\<lparr>content = [ReportText rep], isError = b\<rparr> = \<lparr>content = [ReportText r], isError = (errors r \<noteq> [])\<rparr>"
    and t: "tr' = tr @ P @ concat Ds @ [S]"
    and parts: "participants r = map spec_id (participants_of a)"
    and p: "map gc_spec P = participants_of a"
    and props: "proposals r = foldl record_entry [] P"
    and ch: "round_chain (requirement_of a) (participants_of a) 1 (proposals r) (debates r) Ds"
    and s: "gc_spec S = synthModel_of a (participants_of a)"
    and errs: "errors r = map (error_line ''proposal'') (filter failed P) @ debate_errors (debates r) Ds
                    @ map (error_line ''synthesis'') (filter failed [S])"
    by blast
  from r have rr: "r = rep" by simp
  have sin: "gc_spec S \<in> set (participants_of a)"
    unfolding s by (rule synthModel_in_participants [OF ps])
  have pin: "gc_spec c \<in> set (participants_of a)" if "c \<in> set P" for c
  proof -
    from that have "gc_spec c \<in> set (map gc_spec P)" by simp
    then show ?thesis by (simp only: p)
  qed
  have din: "gc_spec c \<in> set (participants_of a)" if "c \<in> set (concat Ds)" for c
  proof -
    from that obtain D where D: "D \<in> set Ds" "c \<in> set D" by auto
    from round_chain_specs [OF ch] D(1) have "map gc_spec D = participants_of a" by blast
    moreover from D(2) have "gc_spec c \<in> set (map gc_spec D)" by simp
    ultimately show ?thesis by simp
  qed
  have 1: "participants rep = map spec_id (participants_of a)" using parts rr by simp
  have ids: "(\<lambda>c. spec_id (gc_spec c)) ` set P = spec_id ` set (participants_of a)"
  proof -
    have "(\<lambda>c. spec_id (gc_spec c)) ` set P = spec_id ` set (map gc_spec P)"
      by (simp add: image_image)
    then show ?thesis by (simp only: p)
  qed
  have 2: "fst ` set (proposals rep) \<subseteq> spec_id ` set (participants_of a)"
    unfolding rr [symmetric] props record_entries_keys ids by auto
  have 3: "\<forall>line\<in>set (errors rep). \<exists>sp\<in>set (participants_of a). \<exists>stage n.
               line = ''['' @ stage @ '':'' @ spec_id sp @ ''] code='' @ dec n"
  proof
    fix line assume "line \<in> set (errors rep)"
    then have "line \<in> set (map (error_line ''proposal'') (filter failed P))
               \<or> line \<in> set (debate_errors (debates r) Ds)
               \<or> line \<in> set (map (error_line ''synthesis'') (filter failed [S]))"
      unfolding rr [symmetric] errs by auto
    then have "\<exists>c stage. gc_spec c \<in> set (participants_of a) \<and> line = error_line stage c"
    proof (elim disjE)
      assume "line \<in> set (map (error_line ''proposal'') (filter failed P))"
      then obtain c where "c \<in> set P" "line = error_line ''proposal'' c" by auto
      with pin show ?thesis by blast
    next
      assume "line \<in> set (debate_errors (debates r) Ds)"
      with debate_errors_lines [OF ch] show ?thesis by blast
    next
      assume "line \<in> set (map (error_line ''synthesis'') (filter failed [S]))"
      then have "line = error_line ''synthesis'' S" by (auto split: if_splits)
      with sin show ?thesis by blast
    qed
    then obtain c stage where "gc_spec c \<in> set (participants_of a)" "line = error_line stage c"
      by blast
    then show "\<exists>sp\<in>set (participants_of a). \<exists>stage n.
               line = ''['' @ stage @ '':'' @ spec_id sp @ ''] code='' @ dec n"
      unfolding error_line_def by blast
  qed
  have 4: "\<exists>new. tr' = tr @ new \<and> (\<forall>c\<in>set new. gc_spec c \<in> set (participants_of a))"
  proof (intro exI [of _ "P @ concat Ds @ [S]"] conjI ballI)
    show "tr' = tr @ P @ concat Ds @ [S]" by (rule t)
  next
    fix c assume "c \<in> set (P @ concat Ds @ [S])"
    then have "c \<in> set P \<or> c \<in> set (concat Ds) \<or> c = S" by auto
    with pin din sin show "gc_spec c \<in> set (participants_of a)" by blast
  qed
  from 1 2 3 4 show "participants rep = map spec_id (participants_of a)
        \<and> fst ` set (proposals rep) \<subseteq> spec_id ` set (participants_of a)
        \<and> (\<forall>line\<in>set (errors rep). \<exists>sp\<in>set (participants_of a). \<exists>stage n.
               line = ''['' @ stage @ '':'' @ spec_id sp @ ''] code='' @ dec n)
        \<and> (\<exists>new. tr' = tr @ new \<and> (\<forall>c\<in>set new. gc_spec c \<in> set (participants_of a)))"
    by (intro conjI)
  qed
qed


theorem invalid_participants_are_dropped_witness:
  "toModelSpec (Some (JNum 3)) ''model_1'' = Inr None
   \<and> plain (get (JObj [(''id'', JStr ''X''), (''model'', JStr ''m2'')]) ''provider'')
   \<and> plain (get (JObj [(''id'', JStr ''X''), (''model'', JStr ''m2'')]) ''model'')
   \<and> falsy (get (JObj [(''id'', JStr ''X''), (''model'', JStr ''m2'')]) ''provider'')
   \<and> toModelSpec (Some (JObj [(''id'', JStr ''X''), (''model'', JStr ''m2'')])) ''model_3'' = Inr None
   \<and> toModelSpec (Some (JObj [(''model'', JObj [(''toString'', JNum 1)])])) ''model_2'' = Inl TypeError
   \<and> collectParticipants 0 (rawParticipants_of mixed_args) =
        Inr [\<lparr>spec_id = ''model_2'', provider = ''custom'', model = ''m1'',
              api_url = ''http://a.example/v1'', api_key = [], system_prompt = []\<rparr>]
   \<and> participants_of mixed_args =
        [\<lparr>spec_id = ''model_2'', provider = ''custom'', model = ''m1'',
          api_url = ''http://a.example/v1'', api_key = [], system_prompt = []\<rparr>]
   \<and> requirement_of none_valid_args \<noteq> []
   \<and> collectParticipants 0 (rawParticipants_of none_valid_args) = Inr []
   \<and> runBrainstorm sample_env none_valid_args [] =
        Inr (\<lparr>content = [Plain ''`participants` must include at least one valid model.''],
              isError = True\<rparr>, [])
   \<and> requirement_of unconvertible_model_args \<noteq> []
   \<and> runBrainstorm sample_env unconvertible_model_args [] = Inl TypeError
   \<and> (\<exists>rep b tr'.
         runBrainstorm sample_env mixed_args [] = Inr (\<lparr>content = [ReportText rep], isError = b\<rparr>, tr')
       \<and> participants rep = map spec_id (participants_of mixed_args)
       \<and> fst ` set (proposals rep) \<subseteq> spec_id ` set (participants_of mixed_args)
       \<and> (\<exists>new. tr' = [] @ new \<and> list_all (\<lambda>c. gc_spec c \<in> set (participants_of mixed_args)) new))"
proof -
  let ?x = "JObj [(''id'', JStr ''X''), (''model'', JStr ''m2'')]"
  let ?u = "JObj [(''model'', JObj [(''toString'', JNum 1)])]"
  let ?sp = "\<lparr>spec_id = ''model_2'', provider = ''custom'', model = ''m1'',
              api_url = ''http://a.example/v1'', api_key = [], system_prompt = []\<rparr>"
  have 1: "toModelSpec (Some (JNum 3)) ''model_1'' = Inr None"
    using invalid_participants_are_dropped [where item = "JNum 3" and fb = "''model_1''", THEN conjunct1]
    by simp
  have p1: "plain (get ?x ''provider'')" by code_simp
  have p2: "plain (get ?x ''model'')" by code_simp
  have p3: "falsy (get ?x ''provider'')" by code_simp
  from invalid_participants_are_dropped [where item = ?x and fb = "''model_3''"
        and kvs = "[(''id'', JStr ''X''), (''model'', JStr ''m2'')]",
        THEN conjunct2, THEN conjunct2, THEN conjunct1, THEN mp, OF conjI [OF refl conjI [OF p1 p2]]] p3
  have 2: "toModelSpec (Some ?x) ''model_3'' = Inr None"
    by (simp only: simp_thms)
  have q1: "plain (get ?u ''provider'')" by code_simp
  have q2: "get ?u ''model'' = Some (JObj [(''toString'', JNum 1)])" by code_simp
  have q3: "get (JObj [(''toString'', JNum 1)]) ''toString'' \<noteq> None" by code_simp
  from invalid_participants_are_dropped [where item = ?u and fb = "''model_2''"
        and kvs = "[(''model'', JObj [(''toString'', JNum 1)])]" and m = "[(''toString'', JNum 1)]",
        THEN conjunct2, THEN conjunct2, THEN conjunct2, THEN conjunct1, THEN mp,
        OF conjI [OF refl conjI [OF q1 conjI [OF q2 q3]]]]
  have 3: "toModelSpec (Some ?u) ''model_2'' = Inl TypeError" .
  have c: "collectParticipants 0 (rawParticipants_of mixed_args) = Inr [?sp]" by code_simp
  from invalid_participants_are_dropped [where a = mixed_args and ps = "[?sp]",
        THEN conjunct2, THEN conjunct2, THEN conjunct2, THEN conjunct2, THEN conjunct2, THEN conjunct1, THEN mp,
        OF c, THEN conjunct1]
  have 4: "participants_of mixed_args = [?sp]" .
  have 5: "requirement_of none_valid_args \<noteq> []" by code_simp
  have 6: "collectParticipants 0 (rawParticipants_of none_valid_args) = Inr []" by code_simp
  from invalid_participants_are_dropped [where a = none_valid_args and e = sample_env and tr = "[]",
        THEN conjunct2, THEN conjunct2, THEN conjunct2, THEN conjunct2, THEN conjunct2, THEN conjunct2,
        THEN conjunct1, THEN mp, OF 5] 6
  have 7: "runBrainstorm sample_env none_valid_args [] =
        Inr (\<lparr>content = [Plain ''`participants` must include at least one valid model.''],
              isError = True\<rparr>, [])"
    by (simp only: simp_thms)
  have 8: "requirement_of unconvertible_model_args \<noteq> []" by code_simp
  have k: "1 < length (rawParticipants_of unconvertible_model_args)" by code_simp
  have r: "toModelSpec (Some (rawParticipants_of unconvertible_model_args ! 1)) (''model_'' @ dec (1 + 1))
             = Inl TypeError"
    by code_simp
  from invalid_participants_are_dropped [where a = unconvertible_model_args and e = sample_env
        and tr = "[]" and k = 1 and x = TypeError,
        THEN conjunct2, THEN conjunct2, THEN conjunct2, THEN conjunct2, THEN conjunct2, THEN conjunct2,
        THEN conjunct2, THEN conjunct1, THEN mp, OF conjI [OF 8 conjI [OF k r]]]
  have 9: "runBrainstorm sample_env unconvertible_model_args [] = Inl TypeError" .
  have rq: "requirement_of mixed_args \<noteq> []" by code_simp
  have ps: "participants_of mixed_args \<noteq> []" unfolding 4 by simp
  have op: "options_read sample_env mixed_args" by code_simp
  from runBrainstorm_returns [OF no_raise_sample rq ps op] obtain res tr' where
    run: "runBrainstorm sample_env mixed_args [] = Inr (res, tr')" by blast
  from runBrainstorm_report [OF run rq ps] obtain rep where
    "res = \<lparr>content = [ReportText rep], isError = (errors rep \<noteq> [])\<rparr>" by blast
  with run have run': "runBrainstorm sample_env mixed_args [] =
      Inr (\<lparr>content = [ReportText rep], isError = (errors rep \<noteq> [])\<rparr>, tr')"
    by simp
  from invalid_participants_are_dropped [where a = mixed_args and e = sample_env and tr = "[]"
       and rep = rep and b = "errors rep \<noteq> []" and tr' = tr',
       THEN conjunct2, THEN conjunct2, THEN conjunct2, THEN conjunct2, THEN conjunct2, THEN conjunct2,
       THEN conjunct2, THEN conjunct2, THEN mp, OF run']
  have f: "participants rep = map spec_id (participants_of mixed_args)
       \<and> fst ` set (proposals rep) \<subseteq> spec_id ` set (participants_of mixed_args)
       \<and> (\<forall>line\<in>set (errors rep). \<exists>sp\<in>set (participants_of mixed_args). \<exists>stage n.
               line = ''['' @ stage @ '':'' @ spec_id sp @ ''] code='' @ dec n)
       \<and> (\<exists>new. tr' = [] @ new \<and> (\<forall>c\<in>set new. gc_spec c \<in> set (participants_of mixed_args)))" .
  from f obtain new where
    new: "tr' = [] @ new" "\<forall>c\<in>set new. gc_spec c \<in> set (participants_of mixed_args)"
    by blast
  from new(2) have "list_all (\<lambda>c. gc_spec c \<in> set (participants_of mixed_args)) new"
    by (simp only: list_all_iff)
  with new(1) have g: "\<exists>new. tr' = [] @ new
      \<and> list_all (\<lambda>c. gc_spec c \<in> set (participants_of mixed_args)) new"
    by blast
  from f have f1: "participants rep = map spec_id (participants_of mixed_args)"
    and f2: "fst ` set (proposals rep) \<subseteq> spec_id ` set (participants_of mixed_args)"
    by simp_all
  from run' f1 f2 g have 10: "\<exists>rep b tr'.
         runBrainstorm sample_env mixed_args [] = Inr (\<lparr>content = [ReportText rep], isError = b\<rparr>, tr')
       \<and> participants rep = map spec_id (participants_of mixed_args)
       \<and> fst ` set (proposals rep) \<subseteq> spec_id ` set (participants_of mixed_args)
       \<and> (\<exists>new. tr' = [] @ new \<and> list_all (\<lambda>c. gc_spec c \<in> set (participants_of mixed_args)) new)"
    by blast
  from 1 p1 p2 p3 2 3 c 4 5 6 7 8 9 10 show ?thesis by (intro conjI)
qed

text \<open>The claim as stated drops every entry that lacks a non-empty provider or model string.
  An entry whose provider is the number 5 and whose model is \<^verbatim>\<open>true\<close> has neither string, yet
  it is kept as provider \<^verbatim>\<open>5\<close>, model \<^verbatim>\<open>true\<close>, and it leaves a proposal entry and lines of the
  error log. An entry whose model is an object holding a property \<^verbatim>\<open>toString\<close> is not dropped
  silently either: the whole call raises.\<close>

theorem coerced_participant_counterexample:
  "toModelSpec (Some (JObj [(''provider'', JNum 5), (''model'', JBool True)])) ''model_1'' =
     Inr (Some \<lparr>spec_id = ''model_1'', provider = ''5'', model = ''true'', api_url = [],
                api_key = [], system_prompt = []\<rparr>)
   \<and> map_option (\<lambda>r. (participants r, proposals r, errors r))
         (report_of (runBrainstorm sample_env coerced_args [])) =
       Some ([''model_1''],
             [(''model_1'', ''(failed) [model_1] unsupported provider: 5'')],
             [''[proposal:model_1] code=2'', ''[debate-r1:model_1] code=2'',
              ''[synthesis:model_1] code=2''])
   \<and> runBrainstorm sample_env unconvertible_model_args [] = Inl TypeError"
  by code_simp


lemma debateRounds_of_integer:
  "get a ''debate_rounds'' = Some (JNum n) \<Longrightarrow>
   debateRounds_of e a = Num (if n = 0 then 1 else max 0 (min 5 n))"
  by (simp add: debateRounds_of_def)

lemma debateRounds_of_absent:
  "get a ''debate_rounds'' = None \<Longrightarrow> debateRounds_of e a = Num 1"
  by (simp add: debateRounds_of_def)

lemma executed_rounds:
  assumes "runBrainstorm e a tr = Inr (\<lparr>content = [ReportText rep], isError = b\<rparr>, tr')"
      and "requirement_of a \<noteq> []" and "participants_of a \<noteq> []"
  shows "length (debates rep) = rounds_run (debateRounds_of e a) \<and> debate_rounds rep = debateRounds_of e a"
proof -
  from runBrainstorm_report [OF assms] obtain r where
    "\<lparr>content = [ReportText rep], isError = b\<rparr> = \<lparr>content = [ReportText r], isError = (errors r \<noteq> [])\<rparr>"
    "length (debates r) = rounds_run (debateRounds_of e a)" "debate_rounds r = debateRounds_of e a"
    by blast
  then show ?thesis by simp
qed

text \<open>Claim C1, at the input \<^verbatim>\<open>debate_rounds = 0\<close>: \<^verbatim>\<open>argumentsObj.debate_rounds || 1\<close> replaces the
  0 by the default 1 before the clamp, so the call resolves to one debate round and runs
  it. (For every other integer \<open>n\<close> the resolved count is \<open>n\<close> clamped to 0..5, see
  \<open>debateRounds_of_integer\<close>, and the number of rounds run is the resolved count, see
  \<open>executed_rounds\<close>.)\<close>

theorem zero_debate_rounds_runs_one_round:
  "get zero_rounds_args ''debate_rounds'' = Some (JNum 0)
   \<and> debateRounds_of e zero_rounds_args = Num 1
   \<and> map_option (\<lambda>r. (debate_rounds r, map fst (debates r)))
        (report_of (runBrainstorm sample_env zero_rounds_args [])) = Some (Num 1, [1])"
proof -
  have g: "get zero_rounds_args ''debate_rounds'' = Some (JNum 0)" by code_simp
  have "map_option (\<lambda>r. (debate_rounds r, map fst (debates r)))
        (report_of (runBrainstorm sample_env zero_rounds_args [])) = Some (Num 1, [1])"
    by code_simp
  with g debateRounds_of_integer [OF g, of e] show ?thesis by simp
qed


section \<open>Properties of the framed transport\<close>











subsection \<open>Reading the body\<close>



subsection \<open>The header of a frame\<close>










section \<open>Properties of the execution bridge\<close>

lemma validateCwd_Ok:
  "validateCwd base rawCwd roots = Ok cwd \<Longrightarrow> \<exists>root\<in>set roots. isUnder base root cwd"
  by (auto simp: validateCwd_def Let_def list_ex_iff split: if_splits)

lemma validateCwd_Outside:
  "validateCwd base rawCwd roots = Outside err \<Longrightarrow>
   err \<noteq> [] \<and> \<not> (\<exists>root\<in>set roots. isUnder base root
                       (resolve base (case rawCwd of None \<Rightarrow> base | Some r \<Rightarrow> if r = [] then base else r)))"
  by (auto simp: validateCwd_def Let_def list_ex_iff split: if_splits)

lemma run_tool_started:
  "run_tool e prompt cwd t started = Inr (res, started') \<Longrightarrow>
   started' = started @ [\<lparr>sp_prompt = prompt, sp_cwd = cwd, sp_timeoutSec = t\<rparr>]"
  by (auto simp: run_tool_def Let_def split: process.splits option.splits)

text \<open>Claim C7. When the resolved working directory is under none of the allowed roots, every
  tool call returns at once the error result carrying the diagnostic message of
  \<open>validateCwd\<close>, raises nothing and starts no command. More generally every command a tool
  call starts has a working directory that passed the containment check.\<close>

theorem sandbox_violation_starts_nothing:
  "(validateCwd (process_cwd e)
      (case get argumentsObj ''cwd'' of Some (JStr c) \<Rightarrow> Some c | _ \<Rightarrow> None) roots = Outside err
    \<longrightarrow> callTool_runner e name argumentsObj roots started
          = Inr (\<lparr>content = [Plain err], isError = True\<rparr>, started)
        \<and> err \<noteq> [])
   \<and> (callTool_runner e name argumentsObj roots started = Inr (res, started') \<longrightarrow>
        (\<exists>new. started' = started @ new
           \<and> (\<forall>rq\<in>set new. \<exists>root\<in>set roots. isUnder (process_cwd e) root (sp_cwd rq))))"
proof (intro conjI impI)
  assume v: "validateCwd (process_cwd e)
      (case get argumentsObj ''cwd'' of Some (JStr c) \<Rightarrow> Some c | _ \<Rightarrow> None) roots = Outside err"
  then show "callTool_runner e name argumentsObj roots started
          = Inr (\<lparr>content = [Plain err], isError = True\<rparr>, started)"
    by (simp add: callTool_runner_def)
  from validateCwd_Outside [OF v] show "err \<noteq> []" by simp
next
  assume run: "callTool_runner e name argumentsObj roots started = Inr (res, started')"
  show "\<exists>new. started' = started @ new
           \<and> (\<forall>rq\<in>set new. \<exists>root\<in>set roots. isUnder (process_cwd e) root (sp_cwd rq))"
  proof (cases "validateCwd (process_cwd e)
      (case get argumentsObj ''cwd'' of Some (JStr c) \<Rightarrow> Some c | _ \<Rightarrow> None) roots")
    case (Outside err)
    with run have "started' = started" by (simp add: callTool_runner_def)
    then show ?thesis by (intro exI [of _ "[]"]) simp
  next
    case (Ok cwd)
    from validateCwd_Ok [OF Ok] have under: "\<exists>root\<in>set roots. isUnder (process_cwd e) root cwd" .
    from run Ok have "started' = started \<or> (\<exists>p t. started' = started @ [\<lparr>sp_prompt = p, sp_cwd = cwd, sp_timeoutSec = t\<rparr>])"
      unfolding callTool_runner_def Let_def
      by (auto split: if_splits sum.splits dest: run_tool_started)
    then show ?thesis
    proof
      assume "started' = started"
      then show ?thesis by (intro exI [of _ "[]"]) simp
    next
      assume "\<exists>p t. started' = started @ [\<lparr>sp_prompt = p, sp_cwd = cwd, sp_timeoutSec = t\<rparr>]"
      then obtain p t where "started' = started @ [\<lparr>sp_prompt = p, sp_cwd = cwd, sp_timeoutSec = t\<rparr>]"
        by blast
      with under show ?thesis
        by (intro exI [of _ "[\<lparr>sp_prompt = p, sp_cwd = cwd, sp_timeoutSec = t\<rparr>]"]) simp
    qed
  qed
qed

theorem sandbox_violation_starts_nothing_witness:
  "validateCwd (process_cwd sample_runner) (Some ''/workspace/../etc'') [''/workspace'']
     = Outside (''cwd '' @ [CHR 0x27] @ ''/etc'' @ [CHR 0x27] @ '' is outside allowed roots: /workspace'')
   \<and> callTool_runner sample_runner ''claude.one_shot''
        (JObj [(''prompt'', JStr ''hi''), (''cwd'', JStr ''/workspace/../etc'')]) [''/workspace''] []
     = Inr (\<lparr>content = [Plain (''cwd '' @ [CHR 0x27] @ ''/etc'' @ [CHR 0x27]
                                  @ '' is outside allowed roots: /workspace'')],
             isError = True\<rparr>, [])
   \<and> trace_of_runner (callTool_runner sample_runner ''claude.one_shot''
        (JObj [(''prompt'', JStr ''hi''), (''cwd'', JStr ''/workspace/sub'')]) [''/workspace''] [])
     = [\<lparr>sp_prompt = ''hi'', sp_cwd = ''/workspace/sub'', sp_timeoutSec = Num 180\<rparr>]"
proof -
  let ?bad = "JObj [(''prompt'', JStr ''hi''), (''cwd'', JStr ''/workspace/../etc'')]"
  let ?msg = "''cwd '' @ [CHR 0x27] @ ''/etc'' @ [CHR 0x27] @ '' is outside allowed roots: /workspace''"
  have g: "(case get ?bad ''cwd'' of Some (JStr c) \<Rightarrow> Some c | _ \<Rightarrow> None) = Some ''/workspace/../etc''"
    by code_simp
  have v: "validateCwd (process_cwd sample_runner) (Some ''/workspace/../etc'') [''/workspace'']
     = Outside ?msg"
    by code_simp
  have 3: "trace_of_runner (callTool_runner sample_runner ''claude.one_shot''
        (JObj [(''prompt'', JStr ''hi''), (''cwd'', JStr ''/workspace/sub'')]) [''/workspace''] [])
     = [\<lparr>sp_prompt = ''hi'', sp_cwd = ''/workspace/sub'', sp_timeoutSec = Num 180\<rparr>]"
    by code_simp
  from sandbox_violation_starts_nothing
    [where e = sample_runner and argumentsObj = ?bad and roots = "[''/workspace'']" and err = ?msg
       and name = "''claude.one_shot''" and started = "[]"
       and res = "\<lparr>content = [], isError = True\<rparr>" and started' = "[]"]
    v g
  have 2: "callTool_runner sample_runner ''claude.one_shot'' ?bad [''/workspace''] []
     = Inr (\<lparr>content = [Plain ?msg], isError = True\<rparr>, [])"
    by simp
  from v 2 3 show ?thesis by (intro conjI)
qed


subsection \<open>Timeouts\<close>

lemma quiet_events:
  "\<not> list_ex settles es \<Longrightarrow>
     resolved (foldl handle st es) = resolved st
   \<and> timer_armed (foldl handle st es) = (timer_armed st \<and> TimerFires \<notin> set es)
   \<and> timedOut_flag (foldl handle st es) = (timedOut_flag st \<or> (timer_armed st \<and> TimerFires \<in> set es))
   \<and> killed (foldl handle st es) = (killed st \<or> (timer_armed st \<and> TimerFires \<in> set es))"
proof (induction es arbitrary: st)
  case Nil
  then show ?case by simp
next
  case (Cons ev es)
  then have q: "\<not> list_ex settles es" and e: "\<not> settles ev" by simp_all
  note ih = Cons.IH [OF q, of "handle st ev"]
  from e ih show ?case
    by (cases ev) (auto split: if_splits)
qed

lemma resolved_stays: "resolved st = Some r \<Longrightarrow> resolved (foldl handle st es) = Some r"
proof (induction es arbitrary: st)
  case Nil
  then show ?case by simp
next
  case (Cons ev es)
  from Cons.prems have "resolved (handle st ev) = Some r"
    by (cases ev) (simp_all add: settle_def)
  from Cons.IH [OF this] show ?case by simp
qed

lemma killed_stays: "killed st \<Longrightarrow> killed (foldl handle st es)"
proof (induction es arbitrary: st)
  case Nil
  then show ?case by simp
next
  case (Cons ev es)
  from Cons.prems have "killed (handle st ev)"
    by (cases ev) (simp_all add: settle_def split: option.splits)
  from Cons.IH [OF this] show ?case by simp
qed

lemma flag_implies_124:
  assumes "\<forall>r. resolved st = Some r \<longrightarrow> timedOut r \<longrightarrow> exitCode r = 124"
      and "resolved (foldl handle st es) = Some r" and "timedOut r"
  shows "exitCode r = 124"
  using assms
proof (induction es arbitrary: st)
  case Nil
  then show ?case by simp
next
  case (Cons ev es)
  have "\<forall>r. resolved (handle st ev) = Some r \<longrightarrow> timedOut r \<longrightarrow> exitCode r = 124"
    using Cons.prems(1) by (cases ev) (auto simp: settle_def split: option.splits)
  from Cons.IH [OF this] Cons.prems(2,3) show ?case by simp
qed


text \<open>Claim C8, as amended. When the timer fires before the call is resolved, SIGKILL is sent.
  If the next event that resolves the call is then the close of the child's streams, the
  result has \<open>timedOut\<close> true and exit code 124; if it is an error event (the kill could not
  be delivered), the result has exit code 1 and \<open>timedOut\<close> false. A run that closes before
  the timer fires reports the child's exit code (1 when a signal ended it), and a run
  resolved by an error event reports 1, both with \<open>timedOut\<close> false. A result with \<open>timedOut\<close>
  true always has exit code 124; the flag, not the exit code, tells a timeout from a child
  that exits with 124 by itself.\<close>

theorem timeout_marks_result:
  "(\<not> list_ex settles pre \<and> TimerFires \<notin> set pre \<and> \<not> list_ex settles mid \<longrightarrow>
      (\<exists>r. runClaude (pre @ TimerFires # mid @ Close code # later) = Some r
            \<and> timedOut r \<and> exitCode r = 124)
      \<and> killed (run_events (pre @ TimerFires # mid @ Close code # later))
      \<and> (\<exists>r. runClaude (pre @ TimerFires # mid @ ErrorEvent msg # later) = Some r
            \<and> \<not> timedOut r \<and> exitCode r = 1)
      \<and> killed (run_events (pre @ TimerFires # mid @ ErrorEvent msg # later)))
   \<and> (\<not> list_ex settles pre \<and> TimerFires \<notin> set pre \<longrightarrow>
        killed (run_events (pre @ TimerFires # later)))
   \<and> (\<not> list_ex settles pre \<and> TimerFires \<notin> set pre \<longrightarrow>
        (\<exists>r. runClaude (pre @ Close code # later) = Some r
              \<and> \<not> timedOut r \<and> exitCode r = (case code of None \<Rightarrow> 1 | Some c \<Rightarrow> c)))
   \<and> (\<not> list_ex settles pre \<longrightarrow>
        (\<exists>r. runClaude (pre @ ErrorEvent msg # later) = Some r \<and> \<not> timedOut r \<and> exitCode r = 1))
   \<and> (runClaude es = Some r \<and> timedOut r \<longrightarrow> exitCode r = 124)"
proof (intro conjI)
  show "\<not> list_ex settles pre \<and> TimerFires \<notin> set pre \<and> \<not> list_ex settles mid \<longrightarrow>
      (\<exists>r. runClaude (pre @ TimerFires # mid @ Close code # later) = Some r
            \<and> timedOut r \<and> exitCode r = 124)
      \<and> killed (run_events (pre @ TimerFires # mid @ Close code # later))
      \<and> (\<exists>r. runClaude (pre @ TimerFires # mid @ ErrorEvent msg # later) = Some r
            \<and> \<not> timedOut r \<and> exitCode r = 1)
      \<and> killed (run_events (pre @ TimerFires # mid @ ErrorEvent msg # later))"
  proof
    assume a: "\<not> list_ex settles pre \<and> TimerFires \<notin> set pre \<and> \<not> list_ex settles mid"
    define s1 where "s1 = foldl handle initial_run pre"
    define s2 where "s2 = handle s1 TimerFires"
    define s3 where "s3 = foldl handle s2 mid"
    define s4 where "s4 = handle s3 (Close code)"
    from a quiet_events [of pre initial_run] have 1: "resolved s1 = None" "timer_armed s1"
      by (simp_all add: s1_def initial_run_def)
    then have 2: "resolved s2 = None" "timedOut_flag s2" "killed s2"
      by (simp_all add: s2_def)
    from a quiet_events [of mid s2] 2 have 3: "resolved s3 = None" "timedOut_flag s3" "killed s3"
      by (simp_all add: s3_def)
    define r where "r = \<lparr>exitCode = 124, stdout = concat (stdoutChunks s3),
                          stderr = concat (stderrChunks s3), timedOut = True\<rparr>"
    from 3 have 4: "resolved s4 = Some r" "killed s4"
      by (simp_all add: s4_def settle_def r_def)
    have fin: "run_events (pre @ TimerFires # mid @ Close code # later) = foldl handle s4 later"
      by (simp add: run_events_def s1_def s2_def s3_def s4_def)
    have "runClaude (pre @ TimerFires # mid @ Close code # later) = Some r"
      unfolding runClaude_def fin by (rule resolved_stays [OF 4(1)])
    moreover have "timedOut r \<and> exitCode r = 124" by (simp add: r_def)
    moreover have "killed (run_events (pre @ TimerFires # mid @ Close code # later))"
      unfolding fin by (rule killed_stays [OF 4(2)])
    ultimately have closes: "(\<exists>r. runClaude (pre @ TimerFires # mid @ Close code # later) = Some r
            \<and> timedOut r \<and> exitCode r = 124)
      \<and> killed (run_events (pre @ TimerFires # mid @ Close code # later))"
      by blast
    define s5 where "s5 = handle s3 (ErrorEvent msg)"
    define r' where "r' = \<lparr>exitCode = 1, stdout = [], stderr = msg, timedOut = False\<rparr>"
    from 3 have 5: "resolved s5 = Some r'" "killed s5"
      by (simp_all add: s5_def settle_def r'_def)
    have fin': "run_events (pre @ TimerFires # mid @ ErrorEvent msg # later) = foldl handle s5 later"
      by (simp add: run_events_def s1_def s2_def s3_def s5_def)
    have "runClaude (pre @ TimerFires # mid @ ErrorEvent msg # later) = Some r'"
      unfolding runClaude_def fin' by (rule resolved_stays [OF 5(1)])
    moreover have "\<not> timedOut r' \<and> exitCode r' = 1" by (simp add: r'_def)
    moreover have "killed (run_events (pre @ TimerFires # mid @ ErrorEvent msg # later))"
      unfolding fin' by (rule killed_stays [OF 5(2)])
    ultimately have errs: "(\<exists>r. runClaude (pre @ TimerFires # mid @ ErrorEvent msg # later) = Some r
            \<and> \<not> timedOut r \<and> exitCode r = 1)
      \<and> killed (run_events (pre @ TimerFires # mid @ ErrorEvent msg # later))"
      by blast
    from closes errs show "(\<exists>r. runClaude (pre @ TimerFires # mid @ Close code # later) = Some r
            \<and> timedOut r \<and> exitCode r = 124)
      \<and> killed (run_events (pre @ TimerFires # mid @ Close code # later))
      \<and> (\<exists>r. runClaude (pre @ TimerFires # mid @ ErrorEvent msg # later) = Some r
            \<and> \<not> timedOut r \<and> exitCode r = 1)
      \<and> killed (run_events (pre @ TimerFires # mid @ ErrorEvent msg # later))"
      by (simp only: simp_thms)
  qed
next
  show "\<not> list_ex settles pre \<and> TimerFires \<notin> set pre \<longrightarrow>
        killed (run_events (pre @ TimerFires # later))"
  proof
    assume a: "\<not> list_ex settles pre \<and> TimerFires \<notin> set pre"
    define s1 where "s1 = foldl handle initial_run pre"
    define s2 where "s2 = handle s1 TimerFires"
    from a quiet_events [of pre initial_run] have "timer_armed s1"
      by (simp add: s1_def initial_run_def)
    then have 2: "killed s2" by (simp add: s2_def)
    have fin: "run_events (pre @ TimerFires # later) = foldl handle s2 later"
      by (simp add: run_events_def s1_def s2_def)
    show "killed (run_events (pre @ TimerFires # later))"
      unfolding fin by (rule killed_stays [OF 2])
  qed
next
  show "\<not> list_ex settles pre \<and> TimerFires \<notin> set pre \<longrightarrow>
        (\<exists>r. runClaude (pre @ Close code # later) = Some r
              \<and> \<not> timedOut r \<and> exitCode r = (case code of None \<Rightarrow> 1 | Some c \<Rightarrow> c))"
  proof
    assume a: "\<not> list_ex settles pre \<and> TimerFires \<notin> set pre"
    define s1 where "s1 = foldl handle initial_run pre"
    define s2 where "s2 = handle s1 (Close code)"
    from a quiet_events [of pre initial_run] have 1: "resolved s1 = None" "\<not> timedOut_flag s1"
      by (simp_all add: s1_def initial_run_def)
    define r where "r = \<lparr>exitCode = (case code of None \<Rightarrow> 1 | Some c \<Rightarrow> c),
                          stdout = concat (stdoutChunks s1),
                          stderr = concat (stderrChunks s1), timedOut = False\<rparr>"
    from 1 have 2: "resolved s2 = Some r" by (simp add: s2_def settle_def r_def)
    have fin: "run_events (pre @ Close code # later) = foldl handle s2 later"
      by (simp add: run_events_def s1_def s2_def)
    have "runClaude (pre @ Close code # later) = Some r"
      unfolding runClaude_def fin by (rule resolved_stays [OF 2])
    moreover have "\<not> timedOut r \<and> exitCode r = (case code of None \<Rightarrow> 1 | Some c \<Rightarrow> c)"
      by (simp add: r_def)
    ultimately show "\<exists>r. runClaude (pre @ Close code # later) = Some r
              \<and> \<not> timedOut r \<and> exitCode r = (case code of None \<Rightarrow> 1 | Some c \<Rightarrow> c)"
      by blast
  qed
next
  show "\<not> list_ex settles pre \<longrightarrow>
        (\<exists>r. runClaude (pre @ ErrorEvent msg # later) = Some r \<and> \<not> timedOut r \<and> exitCode r = 1)"
  proof
    assume a: "\<not> list_ex settles pre"
    define s1 where "s1 = foldl handle initial_run pre"
    define s2 where "s2 = handle s1 (ErrorEvent msg)"
    from a quiet_events [of pre initial_run] have 1: "resolved s1 = None"
      by (simp add: s1_def initial_run_def)
    define r where "r = \<lparr>exitCode = 1, stdout = [], stderr = msg, timedOut = False\<rparr>"
    from 1 have 2: "resolved s2 = Some r" by (simp add: s2_def settle_def r_def)
    have fin: "run_events (pre @ ErrorEvent msg # later) = foldl handle s2 later"
      by (simp add: run_events_def s1_def s2_def)
    have "runClaude (pre @ ErrorEvent msg # later) = Some r"
      unfolding runClaude_def fin by (rule resolved_stays [OF 2])
    moreover have "\<not> timedOut r \<and> exitCode r = 1" by (simp add: r_def)
    ultimately show "\<exists>r. runClaude (pre @ ErrorEvent msg # later) = Some r \<and> \<not> timedOut r \<and> exitCode r = 1"
      by blast
  qed
next
  show "runClaude es = Some r \<and> timedOut r \<longrightarrow> exitCode r = 124"
  proof
    assume a: "runClaude es = Some r \<and> timedOut r"
    have i: "\<forall>r. resolved initial_run = Some r \<longrightarrow> timedOut r \<longrightarrow> exitCode r = 124"
      by (simp add: initial_run_def)
    from a have "resolved (foldl handle initial_run es) = Some r" "timedOut r"
      by (simp_all add: runClaude_def run_events_def)
    from flag_implies_124 [OF i this] show "exitCode r = 124" .
  qed
qed

theorem timeout_marks_result_witness:
  "\<not> list_ex settles [StdoutData ''a''] \<and> TimerFires \<notin> set [StdoutData ''a'']
   \<and> \<not> list_ex settles [StdoutData ''b'']
   \<and> runClaude ([StdoutData ''a''] @ TimerFires # [StdoutData ''b''] @ Close None # [])
       = Some \<lparr>exitCode = 124, stdout = ''ab'', stderr = [], timedOut = True\<rparr>
   \<and> killed (run_events ([StdoutData ''a''] @ TimerFires # [StdoutData ''b''] @ Close None # []))
   \<and> killed (run_events ([StdoutData ''a''] @ TimerFires # [StdoutData ''b'']
                             @ ErrorEvent ''kill EPERM'' # []))
   \<and> runClaude ([StdoutData ''a''] @ Close (Some 3) # [TimerFires])
       = Some \<lparr>exitCode = 3, stdout = ''a'', stderr = [], timedOut = False\<rparr>
   \<and> runClaude ([StdoutData ''a''] @ ErrorEvent ''spawn claude ENOENT'' # [])
       = Some \<lparr>exitCode = 1, stdout = [], stderr = ''spawn claude ENOENT'', timedOut = False\<rparr>"
proof -
  have h: "\<not> list_ex settles [StdoutData ''a''] \<and> TimerFires \<notin> set [StdoutData ''a'']
           \<and> \<not> list_ex settles [StdoutData ''b'']"
    by simp
  have e1: "runClaude ([StdoutData ''a''] @ TimerFires # [StdoutData ''b''] @ Close None # [])
       = Some \<lparr>exitCode = 124, stdout = ''ab'', stderr = [], timedOut = True\<rparr>"
    by code_simp
  have e2: "runClaude ([StdoutData ''a''] @ Close (Some 3) # [TimerFires])
       = Some \<lparr>exitCode = 3, stdout = ''a'', stderr = [], timedOut = False\<rparr>"
    by code_simp
  have e3: "runClaude ([StdoutData ''a''] @ ErrorEvent ''spawn claude ENOENT'' # [])
       = Some \<lparr>exitCode = 1, stdout = [], stderr = ''spawn claude ENOENT'', timedOut = False\<rparr>"
    by code_simp
  from timeout_marks_result
    [where pre = "[StdoutData ''a'']" and mid = "[StdoutData ''b'']" and code = None and later = "[]"
       and msg = "''kill EPERM''" and es = "[]"
       and r = "\<lparr>exitCode = 0, stdout = [], stderr = [], timedOut = False\<rparr>",
       THEN conjunct1, THEN mp, OF h]
  have k: "killed (run_events ([StdoutData ''a''] @ TimerFires # [StdoutData ''b''] @ Close None # []))"
    and k': "killed (run_events ([StdoutData ''a''] @ TimerFires # [StdoutData ''b'']
                                  @ ErrorEvent ''kill EPERM'' # []))"
    by simp_all
  from h e1 k k' e2 e3 show ?thesis by (intro conjI) simp_all
qed

text \<open>The claim as stated gives every run that exceeds its timeout the flag and the exit code
  124, and calls 124 distinguishable from any normal exit. A child that exits with code
  124 before the timer fires yields the same exit code, with \<open>timedOut\<close> false. And when the
  timer has fired and the child object then emits an error, the call resolves with exit
  code 1 and \<open>timedOut\<close> false.\<close>

theorem timeout_counterexample:
  "runClaude [Close (Some 124)] = Some \<lparr>exitCode = 124, stdout = [], stderr = [], timedOut = False\<rparr>
   \<and> runClaude [TimerFires, ErrorEvent ''kill EPERM'', Close None]
       = Some \<lparr>exitCode = 1, stdout = [], stderr = ''kill EPERM'', timedOut = False\<rparr>"
  by code_simp


subsection \<open>Containment\<close>

text \<open>On resolved paths \<open>isUnder\<close> accepts the root itself and the descendants of the root whose
  first segment below the root does not begin with two dots (\<open>isUnder_clean\<close>).\<close>

lemma join_Cons: "join sep (x # xs) = x @ (if xs = [] then [] else sep @ join sep xs)"
  by (cases xs) simp_all

lemma split_char_plain: "sep \<notin> set xs \<Longrightarrow> split_char sep cur xs = [cur @ xs]"
  by (induction xs arbitrary: cur) auto

lemma split_char_at:
  "sep \<notin> set xs \<Longrightarrow> split_char sep cur (xs @ sep # rest) = (cur @ xs) # split_char sep [] rest"
  by (induction xs arbitrary: cur) auto

lemma split_join:
  "list_all clean segs \<Longrightarrow> segs \<noteq> [] \<Longrightarrow> split_char CHR ''/'' [] (join ''/'' segs) = segs"
proof (induction segs)
  case Nil
  then show ?case by simp
next
  case (Cons x xs)
  then have cx: "clean x" and xs: "list_all clean xs" by simp_all
  from cx have x: "CHR ''/'' \<notin> set x" by (simp add: clean_def)
  show ?case
  proof (cases "xs = []")
    case True
    with x show ?thesis by (simp add: split_char_plain)
  next
    case False
    have "join ''/'' (x # xs) = x @ CHR ''/'' # join ''/'' xs" using False by (simp add: join_Cons)
    then show ?thesis using split_char_at [OF x, of "[]" "join ''/'' xs"] Cons.IH [OF xs False] by simp
  qed
qed

lemma normalize_clean: "list_all clean segs \<Longrightarrow> normalize acc segs = rev acc @ segs"
  by (induction segs arbitrary: acc) (auto simp: clean_def)

lemma segments_abs: "list_all clean segs \<Longrightarrow> segments (abs_path segs) = segs"
proof (cases "segs = []")
  case True
  then show ?thesis by (simp add: segments_def abs_path_def)
next
  case False
  assume c: "list_all clean segs"
  have "split_char CHR ''/'' [] (abs_path segs) = [] # segs"
    using split_join [OF c False] by (simp add: abs_path_def)
  then show ?thesis using normalize_clean [OF c, of "[]"] by (simp add: segments_def)
qed

lemma resolve_abs: "list_all clean segs \<Longrightarrow> resolve base (abs_path segs) = abs_path segs"
proof -
  assume c: "list_all clean segs"
  have "take 1 (abs_path segs) = ''/''" by (simp add: abs_path_def)
  then show ?thesis using segments_abs [OF c] by (simp add: resolve_def abs_path_def [symmetric])
qed

lemma relative_abs:
  "list_all clean rs \<Longrightarrow> list_all clean ts \<Longrightarrow>
   relative base (abs_path rs) (abs_path ts) =
     (case strip_common rs ts of (f, t) \<Rightarrow> join ''/'' (replicate (length f) ''..'' @ t))"
  by (simp add: relative_def resolve_abs segments_abs)

lemma strip_common_prefix:
  "take (length rs) ts = rs \<Longrightarrow> strip_common rs ts = ([], drop (length rs) ts)"
  by (induction rs ts rule: strip_common.induct) auto

lemma strip_common_other:
  "take (length rs) ts \<noteq> rs \<Longrightarrow> fst (strip_common rs ts) \<noteq> []"
  by (induction rs ts rule: strip_common.induct) auto

lemma join_clean_head:
  assumes "clean x"
  shows "join ''/'' (x # xs) \<noteq> []"
    and "take 1 (join ''/'' (x # xs)) \<noteq> ''/''"
    and "(take 2 (join ''/'' (x # xs)) = ''..'') = (take 2 x = ''..'')"
proof -
  from assms obtain c x' where x: "x = c # x'" and c: "c \<noteq> CHR ''/''"
    by (cases x) (auto simp: clean_def)
  show "join ''/'' (x # xs) \<noteq> []" by (simp add: join_Cons x)
  show "take 1 (join ''/'' (x # xs)) \<noteq> ''/''" using c by (simp add: join_Cons x)
  show "(take 2 (join ''/'' (x # xs)) = ''..'') = (take 2 x = ''..'')"
    by (cases x') (auto simp: join_Cons x)
qed

lemma join_dots: "take 2 (join ''/'' (''..'' # xs)) = ''..''"
  by (simp add: join_Cons)

lemma isUnder_clean:
  assumes "list_all clean rs" and "list_all clean ts"
  shows "isUnder base (abs_path rs) (abs_path ts) =
           (take (length rs) ts = rs
            \<and> (length rs < length ts \<longrightarrow> take 2 (ts ! length rs) \<noteq> ''..''))"
proof (cases "take (length rs) ts = rs")
  case True
  note rel = relative_abs [OF assms, of base, unfolded strip_common_prefix [OF True]]
  show ?thesis
  proof (cases "length rs < length ts")
    case False
    then have "drop (length rs) ts = []" by simp
    with rel True False show ?thesis by (simp add: isUnder_def)
  next
    case lt: True
    then obtain x xs where d: "drop (length rs) ts = x # xs" and x: "x = ts ! length rs"
      by (metis Cons_nth_drop_Suc)
    from assms(2) lt x have cx: "clean x" by (simp add: list_all_length)
    from rel d have r: "relative base (abs_path rs) (abs_path ts) = join ''/'' (x # xs)" by simp
    show ?thesis
      unfolding isUnder_def r Let_def
      using join_clean_head [OF cx, of xs] True lt x by simp
  qed
next
  case False
  from strip_common_other [OF False] obtain f fs t where
    sc: "strip_common rs ts = (f # fs, t)"
    by (cases "strip_common rs ts"; cases "fst (strip_common rs ts)") auto
  have r: "relative base (abs_path rs) (abs_path ts) = join ''/'' (''..'' # replicate (length fs) ''..'' @ t)"
    using relative_abs [OF assms, of base] sc by simp
  have "take 2 (relative base (abs_path rs) (abs_path ts)) = ''..''"
    unfolding r by (rule join_dots)
  moreover have "relative base (abs_path rs) (abs_path ts) \<noteq> []"
    unfolding r by (simp add: join_Cons)
  ultimately show ?thesis using False by (simp add: isUnder_def Let_def)
qed

text \<open>Claim C3, at a directory whose name begins with two dots. \<^verbatim>\<open>/workspace/..cache\<close> is
  already resolved and is a strict descendant of the root \<^verbatim>\<open>/workspace\<close>; its relative path
  \<^verbatim>\<open>..cache\<close> satisfies \<^verbatim>\<open>rel.startsWith("..")\<close>, so \<open>isUnder\<close> is false and \<open>validateCwd\<close> rejects
  it. On the three paths of the claim the code agrees with it: \<^verbatim>\<open>/workspace/sub\<close> is accepted,
  \<^verbatim>\<open>/workspace-other\<close> is rejected, \<^verbatim>\<open>/workspace/../etc\<close> resolves to \<^verbatim>\<open>/etc\<close> and is rejected.\<close>

theorem isUnder_rejects_descendant_named_with_dots:
  "resolve ''/home/u'' ''/workspace/..cache'' = ''/workspace/..cache''
   \<and> relative ''/home/u'' ''/workspace'' ''/workspace/..cache'' = ''..cache''
   \<and> \<not> isUnder ''/home/u'' ''/workspace'' ''/workspace/..cache''
   \<and> validateCwd ''/home/u'' (Some ''/workspace/..cache'') [''/workspace''] =
       Outside (''cwd '' @ [CHR 0x27] @ ''/workspace/..cache'' @ [CHR 0x27]
                @ '' is outside allowed roots: /workspace'')
   \<and> validateCwd ''/home/u'' (Some ''/workspace/sub'') [''/workspace''] = Ok ''/workspace/sub''
   \<and> validateCwd ''/home/u'' (Some ''/workspace'') [''/workspace''] = Ok ''/workspace''
   \<and> \<not> isUnder ''/home/u'' ''/workspace'' (resolve ''/home/u'' ''/workspace-other'')
   \<and> resolve ''/home/u'' ''/workspace/../etc'' = ''/etc''
   \<and> \<not> isUnder ''/home/u'' ''/workspace'' (resolve ''/home/u'' ''/workspace/../etc'')"
  by code_simp


end
